theory Spec2Isabelle
  imports Main "HOL-Library.AList" "HOL-Library.Multiset"
begin

section \<open>Data model of the integrity checker\<close>

text \<open>
  The module \<^verbatim>\<open>forensicx/integrity_checker.py\<close> works on JSON-shaped dictionaries.
  A dictionary whose order is observable (\<^verbatim>\<open>baseline['files']\<close>, listed by
  \<^verbatim>\<open>list(current_files.keys())\<close>) is an association list in insertion order, read
  with \<^const>\<open>map_of\<close> and written with \<^const>\<open>AList.update\<close>, which, like a Python
  dict, keeps the position of a key that is assigned again. The \<^verbatim>\<open>hashes\<close> dictionary
  is only ever read with \<^verbatim>\<open>.get\<close> and \<^verbatim>\<open>in\<close>, so it is a map.

  \<open>file_info\<close> is a file entry in the persisted form of a baseline: an object whose
  \<^verbatim>\<open>hashes\<close>, if present, is an object of digest strings. The code reads every key with
  \<^verbatim>\<open>.get\<close>, so every field is optional; \<open>None\<close> is a key that is not there. The
  entries of a scan are of this form.
\<close>

record file_info =
  hashes :: "(string \<rightharpoonup> string) option"
  st_size :: "int option"
  mtime :: "string option"

record baseline =
  timestamp :: string
  mount_point :: string
  files :: "(string \<times> file_info) list"
  errors :: "string list"

text \<open>
  What \<^verbatim>\<open>json.load\<close> returns for a baseline file need not be in that form. A stored
  entry is any JSON value, described as far as the code looks at it:
  \<^item> a digest is read with \<^verbatim>\<open>.get\<close> and compared with a string or \<^verbatim>\<open>None\<close>:
    it is \<^verbatim>\<open>null\<close>, a string, or some other value, which equals neither;
  \<^item> a size is compared with an integer or \<^verbatim>\<open>None\<close>: it is absent or
    \<^verbatim>\<open>null\<close>, a number that Python's \<^verbatim>\<open>==\<close> identifies with an integer, or some
    other value;
  \<^item> \<^verbatim>\<open>hashes\<close> is absent, an object, or a value that is not an object, which has no
    \<^verbatim>\<open>.get\<close>; so is the entry itself. The string is the name of the value's Python
    type, which the text of the \<^verbatim>\<open>AttributeError\<close> shows.
\<close>

datatype json_value = JNull | JStr string | JOther

datatype stored_size = NoSize | Size int | OtherSize

datatype stored_hashes = NoHashes | BadHashes string | Hashes "string \<rightharpoonup> json_value"

datatype stored_info = BadInfo string | Info stored_hashes stored_size "string option"

text \<open>
  One element of \<^verbatim>\<open>verification_results['files']['modified']\<close>; \<open>previous\<close> is
  the stored entry as loaded.
\<close>

record modification =
  path :: string
  previous :: stored_info
  current :: file_info
  changes :: "string list"

text \<open>
  \<^verbatim>\<open>verification_results['files']['new']\<close> receives bare paths on one code path
  (line 151) and \<^verbatim>\<open>{'path', 'info'}\<close> dictionaries on the other (line 201).
\<close>

datatype new_entry = PathOnly string | PathInfo string file_info

record file_lists =
  unchanged :: "string list"
  modified :: "modification list"
  new :: "new_entry list"
  missing :: "(string \<times> stored_info) list"

record summary =
  total_files :: nat
  unchanged_files :: nat
  modified_files :: nat
  new_files :: nat
  missing_files :: nat

record verification_results =
  vr_timestamp :: string
  vr_mount_point :: string
  vr_baseline_file :: string
  vr_files :: file_lists
  vr_summary :: summary
  vr_errors :: "string list"

section \<open>The environment\<close>

text \<open>
  What the module asks of the operating system and the Python library is collected in
  one record. Only \<open>store\<close>, the files that hold baselines, is ever written.

  \<^item> \<open>now\<close>: the text of \<^verbatim>\<open>datetime.now().isoformat()\<close>, taken as constant during
    one run.
  \<^item> \<open>str_rank\<close>: Python leaves the iteration order of a \<^verbatim>\<open>set\<close> unspecified, and
    for strings it changes with the hash seed of the process. A set is iterated here
    in ascending \<open>str_rank\<close>.
  \<^item> \<open>tree\<close>: what \<^verbatim>\<open>os.walk\<close> finds at a root: nothing, something that is not a
    directory, or the \<^verbatim>\<open>(root, files)\<close> tuples it yields, possibly followed by an
    exception.
  \<^item> \<open>open_read\<close>, \<open>os_stat\<close>: \<open>Inl\<close> carries the text of the exception raised;
    \<open>os_stat\<close> gives \<^verbatim>\<open>st_size\<close> and the ISO text of \<^verbatim>\<open>st_mtime\<close>.
  \<^item> \<open>write_error\<close>: the exception, if any, that opening a path for writing raises.
  \<^item> \<open>store\<close>: what is at a path where a baseline is looked for: something that
    cannot be opened as a file, a file that \<^verbatim>\<open>json.load\<close> rejects, a baseline in the
    persisted form (what \<^verbatim>\<open>json.dump\<close> of a baseline writes), or other JSON: a
    value that is not an object, an object whose \<^verbatim>\<open>files\<close> is not an object, or an
    object with these stored entries (none when \<^verbatim>\<open>files\<close> is absent).
\<close>

datatype tree = Missing | NotADirectory | Directory "(string \<times> string list) list" "string option"

datatype parsed = BadDocument string | BadFiles string | Document "(string \<times> stored_info) list"

datatype stored = NotAFile string | Unparsable string | Json baseline | JsonOther parsed

text \<open>The value that \<^verbatim>\<open>json.load\<close> returns.\<close>

datatype loaded = Persisted baseline | Other parsed

record world =
  now :: string
  str_rank :: "string \<Rightarrow> nat"
  tree :: "string \<Rightarrow> tree"
  path_join :: "string \<Rightarrow> string \<Rightarrow> string"
  relpath :: "string \<Rightarrow> string \<Rightarrow> string"
  open_read :: "string \<Rightarrow> string + string"
  os_stat :: "string \<Rightarrow> string + int \<times> string"
  store :: "string \<rightharpoonup> stored"
  write_error :: "string \<rightharpoonup> string"

text \<open>
  \<^verbatim>\<open>os.walk(top)\<close> is called with the default \<^verbatim>\<open>onerror=None\<close>: the error of
  listing \<open>top\<close> is swallowed, and the generator yields nothing for a missing root and
  for a root that is not a directory.
\<close>

definition os_walk :: "world \<Rightarrow> string \<Rightarrow> (string \<times> string list) list \<times> string option" where
  "os_walk w root =
     (case tree w root of
        Missing \<Rightarrow> ([], None)
      | NotADirectory \<Rightarrow> ([], None)
      | Directory tuples exc \<Rightarrow> (tuples, exc))"

definition set_iter :: "(string \<Rightarrow> nat) \<Rightarrow> string list \<Rightarrow> string list" where
  "set_iter rank xs = sort_key rank (remdups xs)"

definition path_exists :: "world \<Rightarrow> string \<Rightarrow> bool" where
  "path_exists w f = (case store w f of None \<Rightarrow> False | Some s \<Rightarrow> True)"

definition path_isfile :: "world \<Rightarrow> string \<Rightarrow> bool" where
  "path_isfile w f =
     (case store w f of None \<Rightarrow> False | Some (NotAFile e) \<Rightarrow> False | Some s \<Rightarrow> True)"

definition quoted :: "string \<Rightarrow> string" where
  "quoted s = [CHR 0x27] @ s @ [CHR 0x27]"

text \<open>\<^verbatim>\<open>with open(f, 'r') as h: json.load(h)\<close>.\<close>

definition json_load :: "world \<Rightarrow> string \<Rightarrow> string + loaded" where
  "json_load w f =
     (case store w f of
        None \<Rightarrow> Inl (''[Errno 2] No such file or directory: '' @ quoted f)
      | Some (NotAFile e) \<Rightarrow> Inl e
      | Some (Unparsable e) \<Rightarrow> Inl e
      | Some (Json b) \<Rightarrow> Inr (Persisted b)
      | Some (JsonOther d) \<Rightarrow> Inr (Other d))"

text \<open>The text of the \<^verbatim>\<open>AttributeError\<close> for a value that lacks a method.\<close>

definition attribute_error :: "string \<Rightarrow> string \<Rightarrow> string" where
  "attribute_error type_name attr =
     quoted type_name @ '' object has no attribute '' @ quoted attr"

section \<open>Hashing and baseline generation\<close>

definition DEFAULT_HASH_ALGORITHMS :: "string list" where
  "DEFAULT_HASH_ALGORITHMS = [''md5'', ''sha256'']"

text \<open>
  \<^verbatim>\<open>hash_objects\<close> holds one hash object per supported algorithm; an object is
  represented by the bytes fed to it.
\<close>

definition hash_objects :: "string list \<Rightarrow> string \<Rightarrow> (string \<times> string) list" where
  "hash_objects algorithms data =
     map (\<lambda>algorithm. (algorithm, data))
       (filter (\<lambda>algorithm. algorithm = ''md5'' \<or> algorithm = ''sha1''
                  \<or> algorithm = ''sha256'' \<or> algorithm = ''sha512'') algorithms)"

text \<open>
  \<^verbatim>\<open>calculate_file_hashes\<close> (lines 21-58). The dictionary \<^verbatim>\<open>hashes\<close> that is
  returned (\<open>result\<close>) is written in one place only, the exception handler: the hash objects are
  updated with the data and then dropped, no digest is read from them.
\<close>

definition calculate_file_hashes :: "world \<Rightarrow> string \<Rightarrow> string list option \<Rightarrow> (string \<rightharpoonup> string)" where
  "calculate_file_hashes w file_path algorithms =
     (let algorithms = (case algorithms of None \<Rightarrow> DEFAULT_HASH_ALGORITHMS | Some a \<Rightarrow> a);
          result = Map.empty
      in case open_read w file_path of
           Inl e \<Rightarrow> result(''error'' \<mapsto> e)
         | Inr data \<Rightarrow> (let objects = hash_objects algorithms data in result))"

text \<open>The inner loop of \<^verbatim>\<open>generate_baseline\<close> (lines 76-93), one directory's files.\<close>

fun scan_files :: "world \<Rightarrow> string \<Rightarrow> string \<Rightarrow> string list \<Rightarrow> baseline \<Rightarrow> baseline" where
  "scan_files w mount root [] b = b"
| "scan_files w mount root (file_name # rest) b =
     (let file_path = path_join w root file_name;
          rel_path = relpath w file_path mount;
          file_hashes = calculate_file_hashes w file_path None
      in scan_files w mount root rest
           (case os_stat w file_path of
              Inr (sz, mt) \<Rightarrow>
                b\<lparr>files := AList.update rel_path
                     \<lparr>hashes = Some file_hashes, st_size = Some sz, mtime = Some mt\<rparr> (files b)\<rparr>
            | Inl e \<Rightarrow>
                b\<lparr>errors := errors b @ [''Error processing '' @ rel_path @ '': '' @ e]\<rparr>))"

text \<open>The outer loop (line 75), over the tuples that \<^verbatim>\<open>os.walk\<close> yields.\<close>

fun scan_tree :: "world \<Rightarrow> string \<Rightarrow> (string \<times> string list) list \<Rightarrow> baseline \<Rightarrow> baseline" where
  "scan_tree w mount [] b = b"
| "scan_tree w mount ((root, file_names) # rest) b =
     scan_tree w mount rest (scan_files w mount root file_names b)"

text \<open>
  \<^verbatim>\<open>generate_baseline\<close> (lines 60-111). Every exception is caught and turned into an
  entry of \<^verbatim>\<open>baseline['errors']\<close>; the function has no other exit than
  \<^verbatim>\<open>return baseline\<close>. An empty \<^verbatim>\<open>output_file\<close> is falsy, like \<^verbatim>\<open>None\<close>.
\<close>

definition generate_baseline :: "world \<Rightarrow> string \<Rightarrow> string option \<Rightarrow> baseline \<times> world" where
  "generate_baseline w mount output_file =
     (let b0 = \<lparr>timestamp = now w, mount_point = mount, files = [], errors = []\<rparr>;
          walked = os_walk w mount;
          b1 = scan_tree w mount (fst walked) b0;
          b2 = (case snd walked of
                  None \<Rightarrow> b1
                | Some e \<Rightarrow>
                    b1\<lparr>errors := errors b1 @
                         [''Error walking filesystem '' @ mount @ '': '' @ e]\<rparr>)
      in case output_file of
           None \<Rightarrow> (b2, w)
         | Some f \<Rightarrow>
             if f = [] then (b2, w)
             else (case write_error w f of
                     None \<Rightarrow> (b2, w\<lparr>store := (store w)(f \<mapsto> Json b2)\<rparr>)
                   | Some e \<Rightarrow>
                       (b2\<lparr>errors := errors b2 @
                             [''Error saving baseline to '' @ f @ '': '' @ e]\<rparr>, w)))"

section \<open>Verification against a previous baseline\<close>

text \<open>\<^verbatim>\<open>current_info.get('hashes', {})\<close>, on an entry of the scan.\<close>

definition get_hashes :: "file_info \<Rightarrow> (string \<rightharpoonup> string)" where
  "get_hashes info = (case hashes info of None \<Rightarrow> Map.empty | Some h \<Rightarrow> h)"

text \<open>
  The stored entry that \<^verbatim>\<open>json.load\<close> returns for an entry in the persisted form.
\<close>

definition size_form :: "int option \<Rightarrow> stored_size" where
  "size_form sz = (case sz of None \<Rightarrow> NoSize | Some n \<Rightarrow> Size n)"

definition stored_form :: "file_info \<Rightarrow> stored_info" where
  "stored_form info =
     Info (case hashes info of
             None \<Rightarrow> NoHashes
           | Some h \<Rightarrow> Hashes (\<lambda>algo. map_option JStr (h algo)))
          (size_form (st_size info)) (mtime info)"

text \<open>
  Lines 172 and 174, on the stored entry: \<^verbatim>\<open>previous_info.get('hashes', {})\<close> raises
  when the entry is not an object, and \<^verbatim>\<open>previous_hashes.get('md5')\<close> raises when
  \<^verbatim>\<open>hashes\<close> is not one; nothing is written between the two. What is read otherwise
  is the \<^verbatim>\<open>hashes\<close> object and, for line 188, the size.
\<close>

fun read_previous :: "stored_info \<Rightarrow> string + (string \<rightharpoonup> json_value) \<times> stored_size" where
  "read_previous (BadInfo type_name) = Inl (attribute_error type_name ''get'')"
| "read_previous (Info NoHashes sz mt) = Inr (Map.empty, sz)"
| "read_previous (Info (BadHashes type_name) sz mt) = Inl (attribute_error type_name ''get'')"
| "read_previous (Info (Hashes h) sz mt) = Inr (h, sz)"

text \<open>\<^verbatim>\<open>.get(algo)\<close> on the two \<^verbatim>\<open>hashes\<close> objects; Python's \<^verbatim>\<open>None\<close> is \<open>JNull\<close>.\<close>

definition current_get :: "(string \<rightharpoonup> string) \<Rightarrow> string \<Rightarrow> json_value" where
  "current_get current_hashes algo =
     (case current_hashes algo of None \<Rightarrow> JNull | Some digest \<Rightarrow> JStr digest)"

definition stored_get :: "(string \<rightharpoonup> json_value) \<Rightarrow> string \<Rightarrow> json_value" where
  "stored_get previous_hashes algo =
     (case previous_hashes algo of None \<Rightarrow> JNull | Some v \<Rightarrow> v)"

text \<open>
  The test of lines 174-175. The left side of each \<^verbatim>\<open>==\<close> is a string or
  \<^verbatim>\<open>None\<close>, so the two sides are equal exactly when they are the same value.
\<close>

definition hashes_match :: "(string \<rightharpoonup> string) \<Rightarrow> (string \<rightharpoonup> json_value) \<Rightarrow> bool" where
  "hashes_match current_hashes previous_hashes =
     (current_get current_hashes ''md5'' = stored_get previous_hashes ''md5'' \<and>
      current_get current_hashes ''sha256'' = stored_get previous_hashes ''sha256'')"

text \<open>The \<^verbatim>\<open>changes\<close> list of a modification (lines 187-194).\<close>

definition find_changes ::
  "(string \<rightharpoonup> json_value) \<Rightarrow> stored_size \<Rightarrow> file_info \<Rightarrow> string list" where
  "find_changes previous_hashes previous_size current_info =
     (let current_hashes = get_hashes current_info
      in (if size_form (st_size current_info) \<noteq> previous_size then [''size''] else []) @
         filter (\<lambda>algo. previous_hashes algo \<noteq> None \<and> current_hashes algo \<noteq> None \<and>
                        stored_get previous_hashes algo \<noteq> current_get current_hashes algo)
           [''md5'', ''sha256''])"

text \<open>
  The body of the loop over the common paths from line 174 on, with what lines 168-172
  have read.
\<close>

definition compare_path ::
  "string \<Rightarrow> stored_info \<Rightarrow> (string \<rightharpoonup> json_value) \<Rightarrow> stored_size \<Rightarrow> file_info \<Rightarrow>
   verification_results \<Rightarrow> verification_results" where
  "compare_path p previous_info previous_hashes previous_size current_info r =
     (if hashes_match (get_hashes current_info) previous_hashes
      then r\<lparr>vr_files := (vr_files r)\<lparr>unchanged := unchanged (vr_files r) @ [p]\<rparr>,
             vr_summary := (vr_summary r)\<lparr>unchanged_files := unchanged_files (vr_summary r) + 1\<rparr>\<rparr>
      else r\<lparr>vr_files := (vr_files r)\<lparr>modified := modified (vr_files r) @
                [\<lparr>path = p, previous = previous_info, current = current_info,
                  changes = find_changes previous_hashes previous_size current_info\<rparr>]\<rparr>,
             vr_summary := (vr_summary r)\<lparr>modified_files := modified_files (vr_summary r) + 1\<rparr>\<rparr>)"

text \<open>
  The three loops of the \<^verbatim>\<open>try\<close> block. A subscript \<^verbatim>\<open>d[path]\<close> of a key that is
  not there raises \<^verbatim>\<open>KeyError\<close>, and a stored entry that cannot be read raises
  \<^verbatim>\<open>AttributeError\<close>; a loop returns the text of the exception that stopped it, if
  any, with the results as they were at that moment.
\<close>

fun compare_common ::
  "(string \<times> stored_info) list \<Rightarrow> (string \<times> file_info) list \<Rightarrow> string list \<Rightarrow>
   verification_results \<Rightarrow> string option \<times> verification_results" where
  "compare_common previous_files current_files [] r = (None, r)"
| "compare_common previous_files current_files (p # rest) r =
     (case map_of current_files p of
        None \<Rightarrow> (Some (quoted p), r)
      | Some current_info \<Rightarrow>
          (case map_of previous_files p of
             None \<Rightarrow> (Some (quoted p), r)
           | Some previous_info \<Rightarrow>
               (case read_previous previous_info of
                  Inl e \<Rightarrow> (Some e, r)
                | Inr (previous_hashes, previous_size) \<Rightarrow>
                    compare_common previous_files current_files rest
                      (compare_path p previous_info previous_hashes previous_size
                         current_info r))))"

fun record_new ::
  "(string \<times> file_info) list \<Rightarrow> string list \<Rightarrow> verification_results \<Rightarrow>
   string option \<times> verification_results" where
  "record_new current_files [] r = (None, r)"
| "record_new current_files (p # rest) r =
     (case map_of current_files p of
        None \<Rightarrow> (Some (quoted p), r)
      | Some info \<Rightarrow>
          record_new current_files rest
            (r\<lparr>vr_files := (vr_files r)\<lparr>new := new (vr_files r) @ [PathInfo p info]\<rparr>,
               vr_summary := (vr_summary r)\<lparr>new_files := new_files (vr_summary r) + 1\<rparr>\<rparr>))"

fun record_missing ::
  "(string \<times> stored_info) list \<Rightarrow> string list \<Rightarrow> verification_results \<Rightarrow>
   string option \<times> verification_results" where
  "record_missing previous_files [] r = (None, r)"
| "record_missing previous_files (p # rest) r =
     (case map_of previous_files p of
        None \<Rightarrow> (Some (quoted p), r)
      | Some info \<Rightarrow>
          record_missing previous_files rest
            (r\<lparr>vr_files := (vr_files r)\<lparr>missing := missing (vr_files r) @ [(p, info)]\<rparr>,
               vr_summary := (vr_summary r)\<lparr>missing_files := missing_files (vr_summary r) + 1\<rparr>\<rparr>))"

text \<open>Lines 215-221.\<close>

definition tally :: "verification_results \<Rightarrow> verification_results" where
  "tally r =
     r\<lparr>vr_summary := (vr_summary r)\<lparr>total_files :=
          unchanged_files (vr_summary r) + modified_files (vr_summary r) +
          new_files (vr_summary r) + missing_files (vr_summary r)\<rparr>\<rparr>"

text \<open>
  The comparison of the stored file dictionary with the current one (lines 161-221): the
  part of \<^verbatim>\<open>verify_integrity\<close> that the specification calls the differencer.
\<close>

definition compare_loaded ::
  "(string \<Rightarrow> nat) \<Rightarrow> (string \<times> stored_info) list \<Rightarrow> (string \<times> file_info) list \<Rightarrow>
   verification_results \<Rightarrow> string option \<times> verification_results" where
  "compare_loaded rank previous_files current_files r =
     (let current_paths = map fst current_files;
          previous_paths = map fst previous_files
      in case compare_common previous_files current_files
                (set_iter rank (filter (\<lambda>p. p \<in> set previous_paths) current_paths)) r of
           (Some e, r1) \<Rightarrow> (Some e, r1)
         | (None, r1) \<Rightarrow>
             (case record_new current_files
                     (set_iter rank (filter (\<lambda>p. p \<notin> set previous_paths) current_paths)) r1 of
                (Some e, r2) \<Rightarrow> (Some e, r2)
              | (None, r2) \<Rightarrow>
                  (case record_missing previous_files
                          (set_iter rank (filter (\<lambda>p. p \<notin> set current_paths) previous_paths)) r2 of
                     (Some e, r3) \<Rightarrow> (Some e, r3)
                   | (None, r3) \<Rightarrow> (None, tally r3))))"

text \<open>
  The comparison of two file dictionaries in the persisted form: the loops get the first
  one as \<^verbatim>\<open>json.load\<close> returns it.
\<close>

definition compare_files ::
  "(string \<Rightarrow> nat) \<Rightarrow> (string \<times> file_info) list \<Rightarrow> (string \<times> file_info) list \<Rightarrow>
   verification_results \<Rightarrow> string option \<times> verification_results" where
  "compare_files rank previous_files current_files r =
     compare_loaded rank (map (\<lambda>(p, info). (p, stored_form info)) previous_files)
       current_files r"

text \<open>
  Lines 159 and 163: \<^verbatim>\<open>previous_baseline.get('files', {})\<close> and
  \<^verbatim>\<open>previous_files.keys()\<close>, each of which raises on a value that is not an object.
\<close>

fun loaded_files :: "loaded \<Rightarrow> string + (string \<times> stored_info) list" where
  "loaded_files (Persisted b) = Inr (map (\<lambda>(p, info). (p, stored_form info)) (files b))"
| "loaded_files (Other (BadDocument type_name)) = Inl (attribute_error type_name ''get'')"
| "loaded_files (Other (BadFiles type_name)) = Inl (attribute_error type_name ''keys'')"
| "loaded_files (Other (Document previous_files)) = Inr previous_files"

text \<open>The initial \<^verbatim>\<open>verification_results\<close> (lines 122-140).\<close>

definition initial_results :: "string \<Rightarrow> string \<Rightarrow> string \<Rightarrow> verification_results" where
  "initial_results ts mount baseline_file =
     \<lparr>vr_timestamp = ts, vr_mount_point = mount, vr_baseline_file = baseline_file,
      vr_files = \<lparr>unchanged = [], modified = [], new = [], missing = []\<rparr>,
      vr_summary = \<lparr>total_files = 0, unchanged_files = 0, modified_files = 0,
                    new_files = 0, missing_files = 0\<rparr>,
      vr_errors = []\<rparr>"

text \<open>\<^verbatim>\<open>verify_integrity\<close> (lines 113-228).\<close>

definition verify_integrity ::
  "world \<Rightarrow> string \<Rightarrow> string option \<Rightarrow> verification_results \<times> world" where
  "verify_integrity w mount baseline_file_arg =
     (let baseline_file = (case baseline_file_arg of
                             None \<Rightarrow> path_join w ''forensicx_output'' ''baseline.json''
                           | Some f \<Rightarrow> f);
          r0 = initial_results (now w) mount baseline_file;
          generated = generate_baseline w mount None;
          current_files = files (fst generated);
          w1 = snd generated
      in if \<not> path_exists w1 baseline_file
         then (r0\<lparr>vr_errors := vr_errors r0 @
                      [''Previous baseline file not found: '' @ baseline_file],
                  vr_summary := (vr_summary r0)\<lparr>new_files := length current_files,
                                                total_files := length current_files\<rparr>,
                  vr_files := (vr_files r0)\<lparr>new := map PathOnly (map fst current_files)\<rparr>\<rparr>, w1)
         else (case json_load w1 baseline_file of
                 Inl e \<Rightarrow>
                   (r0\<lparr>vr_errors := vr_errors r0 @ [''Error during verification: '' @ e]\<rparr>, w1)
               | Inr previous_baseline \<Rightarrow>
                   (case loaded_files previous_baseline of
                      Inl e \<Rightarrow>
                        (r0\<lparr>vr_errors := vr_errors r0 @
                               [''Error during verification: '' @ e]\<rparr>, w1)
                    | Inr previous_files \<Rightarrow>
                        (case compare_loaded (str_rank w1) previous_files current_files r0 of
                           (None, r) \<Rightarrow> (r, w1)
                         | (Some e, r) \<Rightarrow>
                             (r\<lparr>vr_errors := vr_errors r @
                                  [''Error during verification: '' @ e]\<rparr>, w1)))))"

section \<open>The command line's integrity step\<close>

text \<open>
  Lines 86-106 of \<^verbatim>\<open>forensicx/cli.py\<close>, with \<^verbatim>\<open>baseline_file\<close> already joined.
  \<^verbatim>\<open>json.load\<close> is not guarded there: its exception ends \<^verbatim>\<open>main\<close>. The
  \<^verbatim>\<open>baseline\<close> entry of the result is the generated baseline or the loaded value.
\<close>

record integrity =
  baseline_part :: loaded
  verification :: "verification_results option"

definition main_integrity :: "world \<Rightarrow> string \<Rightarrow> string \<Rightarrow> string + integrity \<times> world" where
  "main_integrity w mount baseline_file =
     (if \<not> path_isfile w baseline_file
      then (let generated = generate_baseline w mount (Some baseline_file)
            in Inr (\<lparr>baseline_part = Persisted (fst generated), verification = None\<rparr>,
                    snd generated))
      else (case json_load w baseline_file of
              Inl e \<Rightarrow> Inl e
            | Inr baseline_data \<Rightarrow>
                (let verified = verify_integrity w mount (Some baseline_file)
                 in Inr (\<lparr>baseline_part = baseline_data, verification = Some (fst verified)\<rparr>,
                         snd verified))))"

section \<open>Notions used to state the properties\<close>

text \<open>
  The record stored under a path, read without raising; the three path sets of the
  comparison in the order they are iterated; and the entries the loops are expected to add.
\<close>

definition info_at :: "(string \<times> file_info) list \<Rightarrow> string \<Rightarrow> file_info" where
  "info_at d p =
     (case map_of d p of
        Some info \<Rightarrow> info
      | None \<Rightarrow> \<lparr>hashes = None, st_size = None, mtime = None\<rparr>)"

definition same_at :: "(string \<times> file_info) list \<Rightarrow> (string \<times> file_info) list \<Rightarrow> string \<Rightarrow> bool" where
  "same_at previous_files current_files p =
     (get_hashes (info_at current_files p) ''md5'' =
        get_hashes (info_at previous_files p) ''md5'' \<and>
      get_hashes (info_at current_files p) ''sha256'' =
        get_hashes (info_at previous_files p) ''sha256'')"

text \<open>The changes between two entries in the persisted form, the previous one first.\<close>

definition changes_between :: "file_info \<Rightarrow> file_info \<Rightarrow> string list" where
  "changes_between previous_info current_info =
     (if st_size current_info \<noteq> st_size previous_info then [''size''] else []) @
     filter (\<lambda>algo. get_hashes previous_info algo \<noteq> None \<and>
                    get_hashes current_info algo \<noteq> None \<and>
                    get_hashes previous_info algo \<noteq> get_hashes current_info algo)
       [''md5'', ''sha256'']"

definition modification_at ::
  "(string \<times> file_info) list \<Rightarrow> (string \<times> file_info) list \<Rightarrow> string \<Rightarrow> modification" where
  "modification_at previous_files current_files p =
     \<lparr>path = p, previous = stored_form (info_at previous_files p),
      current = info_at current_files p,
      changes = changes_between (info_at previous_files p) (info_at current_files p)\<rparr>"

definition common_paths ::
  "(string \<Rightarrow> nat) \<Rightarrow> (string \<times> 'a) list \<Rightarrow> (string \<times> 'b) list \<Rightarrow> string list" where
  "common_paths rank previous_files current_files =
     set_iter rank (filter (\<lambda>p. p \<in> set (map fst previous_files)) (map fst current_files))"

definition only_paths ::
  "(string \<Rightarrow> nat) \<Rightarrow> (string \<times> 'a) list \<Rightarrow> (string \<times> 'b) list \<Rightarrow> string list" where
  "only_paths rank these_files other_files =
     set_iter rank (filter (\<lambda>p. p \<notin> set (map fst other_files)) (map fst these_files))"

text \<open>
  The place of a path in a list: the rank under which \<^const>\<open>set_iter\<close> iterates a
  set in the order of that list.
\<close>

definition position :: "string list \<Rightarrow> string \<Rightarrow> nat" where
  "position ys p = length (takeWhile (\<lambda>q. q \<noteq> p) ys)"

text \<open>
  Each count of a report is the length of its list; and the summary of a report agrees
  with its four lists, the total included.
\<close>

definition counts_match_lists :: "verification_results \<Rightarrow> bool" where
  "counts_match_lists r =
     (unchanged_files (vr_summary r) = length (unchanged (vr_files r)) \<and>
      modified_files (vr_summary r) = length (modified (vr_files r)) \<and>
      new_files (vr_summary r) = length (new (vr_files r)) \<and>
      missing_files (vr_summary r) = length (missing (vr_files r)))"

definition counts_consistent :: "verification_results \<Rightarrow> bool" where
  "counts_consistent r =
     (total_files (vr_summary r) =
        unchanged_files (vr_summary r) + modified_files (vr_summary r) +
        new_files (vr_summary r) + missing_files (vr_summary r) \<and>
      unchanged_files (vr_summary r) = length (unchanged (vr_files r)) \<and>
      modified_files (vr_summary r) = length (modified (vr_files r)) \<and>
      new_files (vr_summary r) = length (new (vr_files r)) \<and>
      missing_files (vr_summary r) = length (missing (vr_files r)))"

text \<open>The two shapes of an entry of the \<^verbatim>\<open>new\<close> list.\<close>

fun entry_path :: "new_entry \<Rightarrow> string" where
  "entry_path (PathOnly p) = p"
| "entry_path (PathInfo p info) = p"

fun bare_path :: "new_entry \<Rightarrow> bool" where
  "bare_path (PathOnly p) = True"
| "bare_path (PathInfo p info) = False"

fun carries_record :: "(string \<times> file_info) list \<Rightarrow> new_entry \<Rightarrow> bool" where
  "carries_record d (PathOnly p) = False"
| "carries_record d (PathInfo p info) = (map_of d p = Some info)"

text \<open>
  The files a walk visits, in order; the record the scan stores for a file, if its
  \<^verbatim>\<open>os.stat\<close> succeeds; the scan error it appends otherwise; and the relative paths
  of the files that get a record.
\<close>

definition walked :: "world \<Rightarrow> (string \<times> string list) list \<Rightarrow> string list" where
  "walked w tuples = concat (map (\<lambda>(root, file_names). map (path_join w root) file_names) tuples)"

definition scanned_info :: "world \<Rightarrow> string \<Rightarrow> file_info option" where
  "scanned_info w file_path =
     (case os_stat w file_path of
        Inr (sz, mt) \<Rightarrow>
          Some \<lparr>hashes = Some (calculate_file_hashes w file_path None),
                st_size = Some sz, mtime = Some mt\<rparr>
      | Inl e \<Rightarrow> None)"

definition scan_error :: "world \<Rightarrow> string \<Rightarrow> string \<Rightarrow> string list" where
  "scan_error w mnt file_path =
     (case os_stat w file_path of
        Inr st \<Rightarrow> []
      | Inl e \<Rightarrow> [''Error processing '' @ relpath w file_path mnt @ '': '' @ e])"

definition recorded_paths :: "world \<Rightarrow> string \<Rightarrow> string list \<Rightarrow> string list" where
  "recorded_paths w mnt file_paths =
     map (\<lambda>fp. relpath w fp mnt) (filter (\<lambda>fp. scanned_info w fp \<noteq> None) file_paths)"

section \<open>Example inputs\<close>

text \<open>
  A mount with three files: \<^verbatim>\<open>a.txt\<close> cannot be opened, \<^verbatim>\<open>gone.txt\<close> cannot be
  stat'ed, \<^verbatim>\<open>bb.txt\<close> is fine; and an earlier baseline that lists \<^verbatim>\<open>a.txt\<close> and
  \<^verbatim>\<open>gone.txt\<close>.
\<close>

definition ex_info :: "(string \<times> string) list \<Rightarrow> int \<Rightarrow> file_info" where
  "ex_info digests n =
     \<lparr>hashes = Some (map_of digests), st_size = Some n, mtime = Some ''2024-05-01T10:00:00''\<rparr>"

definition ex_results :: verification_results where
  "ex_results = initial_results ''2024-05-02T09:00:00'' ''/mnt'' ''out/baseline.json''"

definition ex_world :: world where
  "ex_world =
     \<lparr>now = ''2024-05-02T09:00:00'',
      str_rank = length,
      tree = (\<lambda>r. if r = ''/mnt''
                    then Directory [(''/mnt'', [''a.txt'', ''bb.txt'', ''gone.txt''])] None
                  else if r = ''/proc/x'' then Directory [] (Some ''bad path'')
                  else if r = ''/etc/hostname'' then NotADirectory
                  else Missing),
      path_join = (\<lambda>a b. a @ ''/'' @ b),
      relpath = (\<lambda>p start. drop (length start + 1) p),
      open_read = (\<lambda>p. if p = ''/mnt/a.txt'' then Inl ''Permission denied'' else Inr ''data''),
      os_stat = (\<lambda>p. if p = ''/mnt/gone.txt'' then Inl ''No such file''
                       else Inr (10, ''2024-05-01T10:00:00'')),
      store = Map.empty,
      write_error = Map.empty\<rparr>"

definition ex_baseline :: baseline where
  "ex_baseline =
     \<lparr>timestamp = ''2024-05-01T12:00:00'', mount_point = ''/mnt'',
      files = [(''a.txt'', ex_info [] 10), (''gone.txt'', ex_info [] 10)],
      errors = []\<rparr>"

definition ex_world_stored :: world where
  "ex_world_stored = ex_world\<lparr>store := [''out/baseline.json'' \<mapsto> Json ex_baseline]\<rparr>"



text \<open>
  The first mount with a baseline file in which the entry of \<^verbatim>\<open>bb.txt\<close> has
  \<^verbatim>\<open>"hashes": null\<close>.
\<close>

definition ex_world_null :: world where
  "ex_world_null =
     ex_world\<lparr>store := [''out/baseline.json'' \<mapsto>
        JsonOther (Document
          [(''a.txt'', stored_form (ex_info [] 10)),
           (''bb.txt'', Info (BadHashes ''NoneType'') (Size 10)
                          (Some ''2024-05-01T10:00:00''))])]\<rparr>"

text \<open>
  Two file dictionaries whose paths are unchanged, for the order of the lists, and a
  second iteration order.
\<close>

definition ex_previous_files :: "(string \<times> file_info) list" where
  "ex_previous_files =
     [(''a.txt'', ex_info [(''md5'', ''aa''), (''sha256'', ''bb'')] 10),
      (''b.txt'', ex_info [(''md5'', ''aa''), (''sha256'', ''bb''), (''sha1'', ''cc'')] 7)]"

definition ex_current_files :: "(string \<times> file_info) list" where
  "ex_current_files =
     [(''a.txt'', ex_info [(''md5'', ''aa''), (''sha256'', ''bb'')] 12),
      (''b.txt'', ex_info [(''md5'', ''aa''), (''sha256'', ''bb''), (''sha1'', ''dd'')] 7)]"

definition ex_rank :: "string \<Rightarrow> nat" where
  "ex_rank p = (if p = ''a.txt'' then 1 else 0)"

section \<open>The comparison loops\<close>

lemma set_set_iter: "set (set_iter rank xs) = set xs"
  by (simp add: set_iter_def)

lemma distinct_set_iter: "distinct (set_iter rank xs)"
  by (simp add: set_iter_def)

text \<open>
  Every order of a set is the iteration order under some rank, so a statement about all
  ranks is a statement about all iteration orders.
\<close>

lemma position_nth: "distinct ys \<Longrightarrow> i < length ys \<Longrightarrow> position ys (ys ! i) = i"
  unfolding position_def
proof (induction ys arbitrary: i)
  case Nil
  then show ?case by simp
next
  case (Cons y ys)
  show ?case
  proof (cases i)
    case 0
    then show ?thesis by simp
  next
    case (Suc j)
    with Cons.prems have "ys ! j \<in> set ys" by simp
    with Cons.prems have "y \<noteq> ys ! j" by auto
    with Cons Suc show ?thesis by simp
  qed
qed

lemma map_position: "distinct ys \<Longrightarrow> map (position ys) ys = [0..<length ys]"
  by (rule nth_equalityI) (simp_all add: position_nth)

lemma position_inj: 
  assumes "distinct ys" "a \<in> set ys" "b \<in> set ys" "position ys a = position ys b"
  shows "a = b"
proof -
  from assms(2,3) obtain i j where "i < length ys" "ys ! i = a" "j < length ys" "ys ! j = b"
    by (auto simp: in_set_conv_nth)
  with assms(1,4) show ?thesis
    by (metis position_nth)
qed

lemma filter_eq_distinct:
  "distinct zs \<Longrightarrow> filter (\<lambda>x. k = x) zs = (if k \<in> set zs then [k] else [])"
  by (induction zs) auto

lemma set_iter_any_order:
  assumes d: "distinct ys" and s: "set ys = set xs"
  shows "set_iter (position ys) xs = ys"
  unfolding set_iter_def
proof (rule properties_for_sort_key)
  from d s show "mset ys = mset (remdups xs)"
    by (simp add: set_eq_iff_mset_eq_distinct [symmetric])
  show "sorted (map (position ys) ys)"
    by (simp add: map_position [OF d])
  fix k
  assume k: "k \<in> set ys"
  have "filter (\<lambda>x. position ys k = position ys x) zs = filter (\<lambda>x. k = x) zs"
    if "set zs \<subseteq> set ys" for zs
    using that k by (intro filter_cong refl) (auto dest: position_inj [OF d])
  from this [of ys] this [of "remdups xs"] s d k
  show "filter (\<lambda>x. position ys k = position ys x) ys =
        filter (\<lambda>x. position ys k = position ys x) (remdups xs)"
    by (simp add: filter_eq_distinct)
qed

lemma map_of_info_at: "p \<in> fst ` set d \<Longrightarrow> map_of d p = Some (info_at d p)"
  by (cases "map_of d p") (auto simp: info_at_def map_of_eq_None_iff)

text \<open>Entries in the persisted form can always be read, and compare as their fields do.\<close>

lemma read_previous_stored_form:
  "read_previous (stored_form info) =
     Inr (\<lambda>algo. map_option JStr (get_hashes info algo), size_form (st_size info))"
  by (cases "hashes info") (simp_all add: stored_form_def get_hashes_def)

lemma stored_get_persisted:
  "stored_get (\<lambda>algo. map_option JStr (h algo)) algo = current_get h algo"
  by (cases "h algo") (simp_all add: stored_get_def current_get_def)

lemma current_get_eq: "current_get h a = current_get h' a' \<longleftrightarrow> h a = h' a'"
  by (cases "h a"; cases "h' a'") (simp_all add: current_get_def)

lemma size_form_eq: "size_form a = size_form b \<longleftrightarrow> a = b"
  by (cases a; cases b) (simp_all add: size_form_def)

lemma hashes_match_persisted:
  "hashes_match ch (\<lambda>algo. map_option JStr (ph algo)) \<longleftrightarrow>
   ch ''md5'' = ph ''md5'' \<and> ch ''sha256'' = ph ''sha256''"
  by (simp only: hashes_match_def stored_get_persisted current_get_eq)

lemma find_changes_persisted:
  "find_changes (\<lambda>algo. map_option JStr (get_hashes previous_info algo))
     (size_form (st_size previous_info)) current_info =
   changes_between previous_info current_info"
proof -
  have "(\<lambda>algo. map_option JStr (get_hashes previous_info algo) \<noteq> None \<and>
          get_hashes current_info algo \<noteq> None \<and>
          stored_get (\<lambda>algo. map_option JStr (get_hashes previous_info algo)) algo \<noteq>
            current_get (get_hashes current_info) algo) =
        (\<lambda>algo. get_hashes previous_info algo \<noteq> None \<and>
          get_hashes current_info algo \<noteq> None \<and>
          get_hashes previous_info algo \<noteq> get_hashes current_info algo)"
    by (simp only: stored_get_persisted current_get_eq option.map_disc_iff)
  then show ?thesis
    by (simp only: find_changes_def changes_between_def Let_def size_form_eq)
qed

lemma map_of_persisted:
  "map_of (map (\<lambda>(p, info). (p, stored_form info)) d) p = map_option stored_form (map_of d p)"
  by (induction d) auto

lemma map_fst_persisted [simp]:
  "map fst (map (\<lambda>(p, info). (p, stored_form info)) d) = map fst d"
  by (induction d) auto

lemma compare_common_result:
  assumes "set ps \<subseteq> fst ` set current_files" and "set ps \<subseteq> fst ` set previous_files"
  shows "compare_common (map (\<lambda>(p, info). (p, stored_form info)) previous_files)
           current_files ps r =
     (None,
      r\<lparr>vr_files := (vr_files r)
           \<lparr>unchanged := unchanged (vr_files r) @ filter (same_at previous_files current_files) ps,
            modified := modified (vr_files r) @
              map (modification_at previous_files current_files)
                (filter (\<lambda>p. \<not> same_at previous_files current_files p) ps)\<rparr>,
        vr_summary := (vr_summary r)
           \<lparr>unchanged_files := unchanged_files (vr_summary r) +
              length (filter (same_at previous_files current_files) ps),
            modified_files := modified_files (vr_summary r) +
              length (filter (\<lambda>p. \<not> same_at previous_files current_files p) ps)\<rparr>\<rparr>)"
  using assms
proof (induction ps arbitrary: r)
  case Nil
  then show ?case by simp
next
  case (Cons p ps)
  from Cons.prems have c: "map_of current_files p = Some (info_at current_files p)"
    and pr: "map_of previous_files p = Some (info_at previous_files p)"
    by (simp_all add: map_of_info_at)
  from Cons.prems have sub: "set ps \<subseteq> fst ` set current_files" "set ps \<subseteq> fst ` set previous_files"
    by simp_all
  show ?case
    by (simp add: c pr map_of_persisted read_previous_stored_form Cons.IH [OF sub]
        compare_path_def hashes_match_persisted find_changes_persisted same_at_def
        modification_at_def)
qed

lemma record_new_result:
  assumes "set ps \<subseteq> fst ` set current_files"
  shows "record_new current_files ps r =
     (None,
      r\<lparr>vr_files := (vr_files r)
           \<lparr>new := new (vr_files r) @ map (\<lambda>p. PathInfo p (info_at current_files p)) ps\<rparr>,
        vr_summary := (vr_summary r)\<lparr>new_files := new_files (vr_summary r) + length ps\<rparr>\<rparr>)"
  using assms
proof (induction ps arbitrary: r)
  case Nil
  then show ?case by simp
next
  case (Cons p ps)
  from Cons.prems have c: "map_of current_files p = Some (info_at current_files p)"
    by (simp add: map_of_info_at)
  from Cons.prems have sub: "set ps \<subseteq> fst ` set current_files" by simp
  show ?case
    by (simp add: c Cons.IH [OF sub])
qed

lemma record_missing_result:
  assumes "set ps \<subseteq> fst ` set previous_files"
  shows "record_missing (map (\<lambda>(p, info). (p, stored_form info)) previous_files) ps r =
     (None,
      r\<lparr>vr_files := (vr_files r)
           \<lparr>missing := missing (vr_files r) @
              map (\<lambda>p. (p, stored_form (info_at previous_files p))) ps\<rparr>,
        vr_summary := (vr_summary r)\<lparr>missing_files := missing_files (vr_summary r) + length ps\<rparr>\<rparr>)"
  using assms
proof (induction ps arbitrary: r)
  case Nil
  then show ?case by simp
next
  case (Cons p ps)
  from Cons.prems have c: "map_of previous_files p = Some (info_at previous_files p)"
    by (simp add: map_of_info_at)
  from Cons.prems have sub: "set ps \<subseteq> fst ` set previous_files" by simp
  show ?case
    by (simp add: c map_of_persisted Cons.IH [OF sub])
qed

lemma compare_files_initial:
  "compare_files rank previous_files current_files (initial_results ts mnt bf) =
     (None,
      \<lparr>vr_timestamp = ts, vr_mount_point = mnt, vr_baseline_file = bf,
       vr_files =
         \<lparr>unchanged = filter (same_at previous_files current_files)
                         (common_paths rank previous_files current_files),
          modified = map (modification_at previous_files current_files)
                       (filter (\<lambda>p. \<not> same_at previous_files current_files p)
                          (common_paths rank previous_files current_files)),
          new = map (\<lambda>p. PathInfo p (info_at current_files p))
                  (only_paths rank current_files previous_files),
          missing = map (\<lambda>p. (p, stored_form (info_at previous_files p)))
                      (only_paths rank previous_files current_files)\<rparr>,
       vr_summary =
         \<lparr>total_files =
            length (filter (same_at previous_files current_files)
                      (common_paths rank previous_files current_files)) +
            length (filter (\<lambda>p. \<not> same_at previous_files current_files p)
                      (common_paths rank previous_files current_files)) +
            length (only_paths rank current_files previous_files) +
            length (only_paths rank previous_files current_files),
          unchanged_files =
            length (filter (same_at previous_files current_files)
                      (common_paths rank previous_files current_files)),
          modified_files =
            length (filter (\<lambda>p. \<not> same_at previous_files current_files p)
                      (common_paths rank previous_files current_files)),
          new_files = length (only_paths rank current_files previous_files),
          missing_files = length (only_paths rank previous_files current_files)\<rparr>,
       vr_errors = []\<rparr>)"
proof -
  have c1: "set (common_paths rank previous_files current_files) \<subseteq> fst ` set current_files"
    and c2: "set (common_paths rank previous_files current_files) \<subseteq> fst ` set previous_files"
    and n: "set (only_paths rank current_files previous_files) \<subseteq> fst ` set current_files"
    and m: "set (only_paths rank previous_files current_files) \<subseteq> fst ` set previous_files"
    by (auto simp: common_paths_def only_paths_def set_set_iter)
  show ?thesis
    unfolding compare_files_def compare_loaded_def Let_def map_fst_persisted
      common_paths_def [symmetric] only_paths_def [symmetric]
    by (simp add: compare_common_result [OF c1 c2] record_new_result [OF n]
        record_missing_result [OF m] tally_def initial_results_def)
qed


lemma generate_baseline_no_output: "snd (generate_baseline w mnt None) = w"
  by (simp add: generate_baseline_def Let_def)

lemma verify_integrity_absent:
  assumes "store w bf = None"
  shows "verify_integrity w mnt (Some bf) =
     (\<lparr>vr_timestamp = now w, vr_mount_point = mnt, vr_baseline_file = bf,
       vr_files = \<lparr>unchanged = [], modified = [],
                   new = map PathOnly (map fst (files (fst (generate_baseline w mnt None)))),
                   missing = []\<rparr>,
       vr_summary = \<lparr>total_files = length (files (fst (generate_baseline w mnt None))),
                     unchanged_files = 0, modified_files = 0,
                     new_files = length (files (fst (generate_baseline w mnt None))),
                     missing_files = 0\<rparr>,
       vr_errors = [''Previous baseline file not found: '' @ bf]\<rparr>, w)"
  using assms
  by (simp add: verify_integrity_def Let_def generate_baseline_no_output path_exists_def
      initial_results_def)

lemma verify_integrity_loaded:
  assumes "store w bf = Some (Json previous_baseline)"
  shows "verify_integrity w mnt (Some bf) =
     (snd (compare_files (str_rank w) (files previous_baseline)
             (files (fst (generate_baseline w mnt None))) (initial_results (now w) mnt bf)), w)"
  using assms
  by (simp add: verify_integrity_def Let_def generate_baseline_no_output path_exists_def
      json_load_def compare_files_initial flip: compare_files_def)

lemma verify_integrity_unloadable:
  assumes "json_load w bf = Inl e" and "store w bf \<noteq> None"
  shows "verify_integrity w mnt (Some bf) =
     ((initial_results (now w) mnt bf)\<lparr>vr_errors := [''Error during verification: '' @ e]\<rparr>, w)"
  using assms
  by (auto simp add: verify_integrity_def Let_def generate_baseline_no_output path_exists_def
      initial_results_def)

lemma verify_integrity_default:
  "verify_integrity w mnt None =
     verify_integrity w mnt (Some (path_join w ''forensicx_output'' ''baseline.json''))"
  by (simp add: verify_integrity_def)



section \<open>What the loops keep, whatever is stored\<close>

lemma compare_common_keeps:
  "new (vr_files (snd (compare_common previous_files current_files ps r))) = new (vr_files r) \<and>
   missing (vr_files (snd (compare_common previous_files current_files ps r))) =
     missing (vr_files r) \<and>
   new_files (vr_summary (snd (compare_common previous_files current_files ps r))) =
     new_files (vr_summary r) \<and>
   missing_files (vr_summary (snd (compare_common previous_files current_files ps r))) =
     missing_files (vr_summary r) \<and>
   total_files (vr_summary (snd (compare_common previous_files current_files ps r))) =
     total_files (vr_summary r) \<and>
   vr_errors (snd (compare_common previous_files current_files ps r)) = vr_errors r"
  by (induction ps arbitrary: r)
    (auto simp: compare_path_def split: option.splits sum.splits prod.splits)

lemma compare_common_counts:
  "counts_match_lists r \<Longrightarrow>
   counts_match_lists (snd (compare_common previous_files current_files ps r))"
proof (induction ps arbitrary: r)
  case Nil
  then show ?case by simp
next
  case (Cons p ps)
  have step: "counts_match_lists (compare_path p pi ph psz ci r)" for pi ph psz ci
    using Cons.prems by (simp add: compare_path_def counts_match_lists_def)
  show ?case
    using Cons.prems Cons.IH [OF step]
    by (auto split: option.splits sum.splits prod.splits)
qed

lemma record_missing_stored:
  assumes "set ps \<subseteq> fst ` set previous_files"
  shows "fst (record_missing previous_files ps r) = None \<and>
     new (vr_files (snd (record_missing previous_files ps r))) = new (vr_files r) \<and>
     unchanged (vr_files (snd (record_missing previous_files ps r))) = unchanged (vr_files r) \<and>
     modified (vr_files (snd (record_missing previous_files ps r))) = modified (vr_files r) \<and>
     length (missing (vr_files (snd (record_missing previous_files ps r)))) =
       length (missing (vr_files r)) + length ps \<and>
     vr_summary (snd (record_missing previous_files ps r)) =
       (vr_summary r)\<lparr>missing_files := missing_files (vr_summary r) + length ps\<rparr> \<and>
     vr_errors (snd (record_missing previous_files ps r)) = vr_errors r"
  using assms
proof (induction ps arbitrary: r)
  case Nil
  then show ?case by simp
next
  case (Cons p ps)
  from Cons.prems obtain info where i: "map_of previous_files p = Some info"
    by (cases "map_of previous_files p") (auto simp: map_of_eq_None_iff)
  from Cons.prems have sub: "set ps \<subseteq> fst ` set previous_files" by simp
  show ?case
    by (simp add: i Cons.IH [OF sub])
qed

lemma common_paths_subset:
  "set (common_paths rank previous_files current_files) \<subseteq> fst ` set current_files"
  "set (common_paths rank previous_files current_files) \<subseteq> fst ` set previous_files"
  by (auto simp: common_paths_def set_set_iter)

lemma only_paths_subset:
  "set (only_paths rank these_files other_files) \<subseteq> fst ` set these_files"
  by (auto simp: only_paths_def set_set_iter)

text \<open>
  The comparison either stops in the first loop, with the report as that loop left it, or
  runs to the tally.
\<close>

lemma compare_loaded_cases:
  "compare_loaded rank previous_files current_files r =
     (case compare_common previous_files current_files
             (common_paths rank previous_files current_files) r of
        (Some e, r1) \<Rightarrow> (Some e, r1)
      | (None, r1) \<Rightarrow>
          (None,
           tally (snd (record_missing previous_files
                         (only_paths rank previous_files current_files)
                         (snd (record_new current_files
                                 (only_paths rank current_files previous_files) r1))))))"
proof -
  have ms: "x = None"
    if "record_missing previous_files (only_paths rank previous_files current_files) r2 = (x, r3)"
    for x r2 r3
    using record_missing_stored [OF only_paths_subset [of rank previous_files current_files],
        of r2] that
    by simp
  show ?thesis
    unfolding compare_loaded_def Let_def
      common_paths_def [symmetric] only_paths_def [symmetric]
    by (auto simp: record_new_result [OF only_paths_subset [of rank current_files previous_files]]
        split: prod.splits option.splits dest: ms)
qed

lemma compare_loaded_counts:
  assumes "counts_match_lists r"
  shows "counts_match_lists (snd (compare_loaded rank previous_files current_files r))"
proof -
  obtain e r1 where c: "compare_common previous_files current_files
             (common_paths rank previous_files current_files) r = (e, r1)"
    by (cases "compare_common previous_files current_files
             (common_paths rank previous_files current_files) r")
  from compare_common_counts [OF assms, of previous_files current_files
      "common_paths rank previous_files current_files"] c
  have r1: "counts_match_lists r1" by simp
  show ?thesis
  proof (cases e)
    case (Some x)
    with c r1 show ?thesis
      by (simp add: compare_loaded_cases)
  next
    case None
    with c r1 record_missing_stored [OF only_paths_subset [of rank previous_files current_files]]
    show ?thesis
      by (simp add: compare_loaded_cases record_new_result [OF only_paths_subset [of rank current_files previous_files]] tally_def
          counts_match_lists_def)
  qed
qed

lemma compare_loaded_completed:
  assumes "counts_match_lists r"
    and "fst (compare_loaded rank previous_files current_files r) = None"
  shows "counts_consistent (snd (compare_loaded rank previous_files current_files r))"
proof -
  obtain e r1 where c: "compare_common previous_files current_files
             (common_paths rank previous_files current_files) r = (e, r1)"
    by (cases "compare_common previous_files current_files
             (common_paths rank previous_files current_files) r")
  from assms(2) c have "total_files (vr_summary (snd (compare_loaded rank previous_files
                        current_files r))) =
        unchanged_files (vr_summary (snd (compare_loaded rank previous_files current_files r))) +
        modified_files (vr_summary (snd (compare_loaded rank previous_files current_files r))) +
        new_files (vr_summary (snd (compare_loaded rank previous_files current_files r))) +
        missing_files (vr_summary (snd (compare_loaded rank previous_files current_files r)))"
    by (cases e) (simp_all add: compare_loaded_cases tally_def)
  with compare_loaded_counts [OF assms(1), of rank previous_files current_files]
  show ?thesis
    by (simp add: counts_consistent_def counts_match_lists_def)
qed

lemma compare_loaded_new_entries:
  assumes "new (vr_files r) = []"
  shows "list_all (carries_record current_files)
           (new (vr_files (snd (compare_loaded rank previous_files current_files r))))"
proof -
  obtain e r1 where c: "compare_common previous_files current_files
             (common_paths rank previous_files current_files) r = (e, r1)"
    by (cases "compare_common previous_files current_files
             (common_paths rank previous_files current_files) r")
  from compare_common_keeps [of previous_files current_files
      "common_paths rank previous_files current_files" r] c assms
  have k: "new (vr_files r1) = []" by simp
  have look: "map_of current_files p = Some (info_at current_files p)"
    if "p \<in> set (only_paths rank current_files previous_files)" for p
    using that only_paths_subset [of rank current_files previous_files]
    by (auto intro!: map_of_info_at)
  show ?thesis
  proof (cases e)
    case (Some x)
    with c k show ?thesis
      by (simp add: compare_loaded_cases)
  next
    case None
    with c k record_missing_stored [OF only_paths_subset [of rank previous_files current_files]]
      look
    show ?thesis
      by (simp add: compare_loaded_cases record_new_result [OF only_paths_subset [of rank current_files previous_files]] tally_def
          list_all_iff)
  qed
qed

lemma verify_integrity_other:
  assumes "store w bf = Some (JsonOther d)"
  shows "verify_integrity w mnt (Some bf) =
     (case loaded_files (Other d) of
        Inl e \<Rightarrow>
          ((initial_results (now w) mnt bf)
             \<lparr>vr_errors := [''Error during verification: '' @ e]\<rparr>, w)
      | Inr previous_files \<Rightarrow>
          (case compare_loaded (str_rank w) previous_files
                  (files (fst (generate_baseline w mnt None))) (initial_results (now w) mnt bf) of
             (None, r) \<Rightarrow> (r, w)
           | (Some e, r) \<Rightarrow>
               (r\<lparr>vr_errors := vr_errors r @ [''Error during verification: '' @ e]\<rparr>, w)))"
  using assms
  by (simp add: verify_integrity_def Let_def generate_baseline_no_output path_exists_def
      json_load_def initial_results_def split: sum.splits prod.splits option.splits)

text \<open>
  In every report each count is the length of its list; the total is the sum of the
  counts when there is no baseline file, when it cannot be loaded, and when it is in the
  persisted form.
\<close>

lemma counts_match_lists_some:
  "counts_match_lists (fst (verify_integrity w mnt (Some bf)))"
proof (cases "store w bf")
  case None
  then show ?thesis
    by (simp add: verify_integrity_absent counts_match_lists_def)
next
  case (Some s)
  have i: "counts_match_lists (initial_results ts mnt bf)" for ts
    by (simp add: initial_results_def counts_match_lists_def)
  show ?thesis
  proof (cases s)
    case (Json previous_baseline)
    with Some show ?thesis
      by (simp add: verify_integrity_loaded compare_files_initial counts_match_lists_def)
  next
    case (NotAFile e)
    with Some have "json_load w bf = Inl e" "store w bf \<noteq> None"
      by (simp_all add: json_load_def)
    then show ?thesis
      by (simp add: verify_integrity_unloadable counts_match_lists_def initial_results_def)
  next
    case (Unparsable e)
    with Some have "json_load w bf = Inl e" "store w bf \<noteq> None"
      by (simp_all add: json_load_def)
    then show ?thesis
      by (simp add: verify_integrity_unloadable counts_match_lists_def initial_results_def)
  next
    case (JsonOther d)
    show ?thesis
    proof (cases "loaded_files (Other d)")
      case (Inl e)
      with Some JsonOther show ?thesis
        by (simp add: verify_integrity_other counts_match_lists_def initial_results_def)
    next
      case (Inr previous_files)
      obtain x r where c: "compare_loaded (str_rank w) previous_files
          (files (fst (generate_baseline w mnt None))) (initial_results (now w) mnt bf) = (x, r)"
        by (cases "compare_loaded (str_rank w) previous_files
          (files (fst (generate_baseline w mnt None))) (initial_results (now w) mnt bf)")
      from compare_loaded_counts [OF i, of "str_rank w" previous_files
          "files (fst (generate_baseline w mnt None))" "now w"] c
      have "counts_match_lists r" by simp
      with Some JsonOther Inr c show ?thesis
        by (cases x) (simp_all add: verify_integrity_other counts_match_lists_def)
    qed
  qed
qed

lemma counts_consistent_persisted:
  assumes "store w bf = None \<or> store w bf = Some (NotAFile e) \<or>
           store w bf = Some (Unparsable e) \<or> store w bf = Some (Json previous_baseline)"
  shows "counts_consistent (fst (verify_integrity w mnt (Some bf)))"
proof -
  from assms consider "store w bf = None" | "json_load w bf = Inl e \<and> store w bf \<noteq> None"
    | "store w bf = Some (Json previous_baseline)"
    by (auto simp: json_load_def)
  then show ?thesis
  proof cases
    case 1
    then show ?thesis
      by (simp add: verify_integrity_absent counts_consistent_def)
  next
    case 2
    then show ?thesis
      by (simp add: verify_integrity_unloadable counts_consistent_def initial_results_def)
  next
    case 3
    then show ?thesis
      by (simp add: verify_integrity_loaded compare_files_initial counts_consistent_def)
  qed
qed

section \<open>The path sets and the entries of a report\<close>

lemma set_common_paths:
  "set (common_paths rank previous_files current_files) =
     fst ` set current_files \<inter> fst ` set previous_files"
  by (auto simp: common_paths_def set_set_iter)

lemma set_only_paths:
  "set (only_paths rank these_files other_files) = fst ` set these_files - fst ` set other_files"
  by (auto simp: only_paths_def set_set_iter)

lemma distinct_common_paths: "distinct (common_paths rank previous_files current_files)"
  by (simp add: common_paths_def distinct_set_iter)


lemma same_at_self: "same_at d d p"
  by (simp add: same_at_def hashes_match_def)

lemma common_paths_self: "set (common_paths rank d d) = fst ` set d"
  by (simp add: set_common_paths)

lemma only_paths_self: "only_paths rank d d = []"
  by (simp add: only_paths_def set_iter_def)

lemma only_paths_lookup:
  "p \<in> set (only_paths rank these_files other_files) \<Longrightarrow>
   map_of these_files p = Some (info_at these_files p)"
  by (simp add: set_only_paths map_of_info_at)




section \<open>The changes listed for a modification\<close>

lemma changes_size:
  "''size'' \<in> set (changes_between previous_info current_info) \<longleftrightarrow>
   st_size current_info \<noteq> st_size previous_info"
  by (auto simp: changes_between_def)

lemma changes_md5:
  "''md5'' \<in> set (changes_between previous_info current_info) \<longleftrightarrow>
   get_hashes previous_info ''md5'' \<noteq> None \<and> get_hashes current_info ''md5'' \<noteq> None \<and>
   get_hashes previous_info ''md5'' \<noteq> get_hashes current_info ''md5''"
  by (simp add: changes_between_def)

lemma changes_sha256:
  "''sha256'' \<in> set (changes_between previous_info current_info) \<longleftrightarrow>
   get_hashes previous_info ''sha256'' \<noteq> None \<and> get_hashes current_info ''sha256'' \<noteq> None \<and>
   get_hashes previous_info ''sha256'' \<noteq> get_hashes current_info ''sha256''"
  by (simp add: changes_between_def)

lemma changes_subset:
  "set (changes_between previous_info current_info) \<subseteq> {''size'', ''md5'', ''sha256''}"
  by (auto simp: changes_between_def)


section \<open>Independence of the iteration order\<close>

lemma mset_set_iter: "mset (set_iter rank xs) = mset (remdups xs)"
  by (simp add: set_iter_def)

lemma mset_common_paths:
  "mset (common_paths rank previous_files current_files) =
   mset (common_paths rank' previous_files current_files)"
  by (simp add: common_paths_def mset_set_iter)

lemma mset_only_paths:
  "mset (only_paths rank these_files other_files) =
   mset (only_paths rank' these_files other_files)"
  by (simp add: only_paths_def mset_set_iter)

lemma mset_filter_cong_list: "mset xs = mset ys \<Longrightarrow> mset (filter P xs) = mset (filter P ys)"
  by simp

lemma mset_map_cong_list: "mset xs = mset ys \<Longrightarrow> mset (map f xs) = mset (map f ys)"
  by simp

lemma length_filter_cong_list:
  "mset xs = mset ys \<Longrightarrow> length (filter P xs) = length (filter P ys)"
  by (rule mset_eq_length) (rule mset_filter_cong_list)

section \<open>The scan\<close>


lemma walked_Nil: "walked w [] = []"
  by (simp add: walked_def)

lemma walked_Cons:
  "walked w ((root, names) # tuples) = map (path_join w root) names @ walked w tuples"
  by (simp add: walked_def)

lemma scan_files_errors:
  "errors (scan_files w mnt root names b) =
   errors b @ concat (map (scan_error w mnt) (map (path_join w root) names))"
  by (induction names arbitrary: b) (auto simp: Let_def scan_error_def split: sum.splits)

lemma scan_tree_errors:
  "errors (scan_tree w mnt tuples b) = errors b @ concat (map (scan_error w mnt) (walked w tuples))"
proof (induction tuples arbitrary: b)
  case Nil
  show ?case by (simp add: walked_Nil)
next
  case (Cons t tuples)
  obtain root names where t: "t = (root, names)" by (cases t)
  show ?case
    by (simp add: t walked_Cons Cons.IH scan_files_errors)
qed

lemma scan_files_keys:
  "fst ` set (files (scan_files w mnt root names b)) =
   fst ` set (files b) \<union> set (recorded_paths w mnt (map (path_join w root) names))"
  by (induction names arbitrary: b)
    (auto simp: Let_def scanned_info_def recorded_paths_def dom_update split: sum.splits)

lemma scan_tree_keys:
  "fst ` set (files (scan_tree w mnt tuples b)) =
   fst ` set (files b) \<union> set (recorded_paths w mnt (walked w tuples))"
proof (induction tuples arbitrary: b)
  case Nil
  show ?case by (simp add: walked_Nil recorded_paths_def)
next
  case (Cons t tuples)
  obtain root names where t: "t = (root, names)" by (cases t)
  have "recorded_paths w mnt (walked w (t # tuples)) =
        recorded_paths w mnt (map (path_join w root) names) @ recorded_paths w mnt (walked w tuples)"
    by (simp add: t walked_Cons recorded_paths_def)
  then show ?case
    by (simp add: t Cons.IH scan_files_keys Un_assoc)
qed

lemma scan_files_lookup:
  assumes "\<forall>q \<in> set (map (path_join w root) names). relpath w q mnt = rel \<longrightarrow> q = fp"
  shows "map_of (files (scan_files w mnt root names b)) rel =
     (if fp \<in> set (map (path_join w root) names) \<and> relpath w fp mnt = rel \<and> scanned_info w fp \<noteq> None
      then scanned_info w fp else map_of (files b) rel)"
  using assms
  by (induction names arbitrary: b)
    (auto simp: Let_def scanned_info_def update_conv' split: sum.splits)

lemma scan_tree_lookup:
  assumes "\<forall>q \<in> set (walked w tuples). relpath w q mnt = rel \<longrightarrow> q = fp"
  shows "map_of (files (scan_tree w mnt tuples b)) rel =
     (if fp \<in> set (walked w tuples) \<and> relpath w fp mnt = rel \<and> scanned_info w fp \<noteq> None
      then scanned_info w fp else map_of (files b) rel)"
  using assms
proof (induction tuples arbitrary: b)
  case Nil
  then show ?case by (simp add: walked_Nil)
next
  case (Cons t tuples)
  obtain root names where t: "t = (root, names)" by (cases t)
  from Cons.prems t have 1: "\<forall>q \<in> set (map (path_join w root) names). relpath w q mnt = rel \<longrightarrow> q = fp"
    and 2: "\<forall>q \<in> set (walked w tuples). relpath w q mnt = rel \<longrightarrow> q = fp"
    by (auto simp: walked_Cons)
  show ?case
    using Cons.IH [OF 2] scan_files_lookup [OF 1]
    by (auto simp: t walked_Cons)
qed

lemma distinct_scan_files:
  "distinct (map fst (files b)) \<Longrightarrow> distinct (map fst (files (scan_files w mnt root names b)))"
  by (induction names arbitrary: b) (auto simp: Let_def distinct_update split: sum.splits)

lemma distinct_scan_tree:
  "distinct (map fst (files b)) \<Longrightarrow> distinct (map fst (files (scan_tree w mnt tuples b)))"
  by (induction tuples arbitrary: b) (auto simp: distinct_scan_files)

lemma generate_baseline_fst:
  "fst (generate_baseline w mnt None) =
     (let walked_tuples = os_walk w mnt;
          b1 = scan_tree w mnt (fst walked_tuples)
                 \<lparr>timestamp = now w, mount_point = mnt, files = [], errors = []\<rparr>
      in case snd walked_tuples of
           None \<Rightarrow> b1
         | Some e \<Rightarrow> b1\<lparr>errors := errors b1 @ [''Error walking filesystem '' @ mnt @ '': '' @ e]\<rparr>)"
  by (simp add: generate_baseline_def Let_def)

lemma generate_baseline_files:
  "tree w mnt = Directory tuples exc \<Longrightarrow>
   files (fst (generate_baseline w mnt output_file)) =
   files (scan_tree w mnt tuples \<lparr>timestamp = now w, mount_point = mnt, files = [], errors = []\<rparr>)"
  by (auto simp: generate_baseline_def Let_def os_walk_def split: option.splits)

lemma generate_baseline_errors:
  "tree w mnt = Directory tuples exc \<Longrightarrow>
   errors (fst (generate_baseline w mnt None)) =
   concat (map (scan_error w mnt) (walked w tuples)) @
   (case exc of None \<Rightarrow> [] | Some e \<Rightarrow> [''Error walking filesystem '' @ mnt @ '': '' @ e])"
  by (auto simp: generate_baseline_def Let_def os_walk_def scan_tree_errors split: option.splits)

lemma generate_baseline_distinct:
  "distinct (map fst (files (fst (generate_baseline w mnt output_file))))"
  by (auto simp: generate_baseline_def Let_def distinct_scan_tree split: option.splits)

lemma generate_baseline_saved:
  assumes "f \<noteq> []" and "write_error w f = None"
  shows "generate_baseline w mnt (Some f) =
     (fst (generate_baseline w mnt None),
      w\<lparr>store := (store w)(f \<mapsto> Json (fst (generate_baseline w mnt None)))\<rparr>)"
  using assms by (simp add: generate_baseline_def Let_def)

lemma generate_baseline_no_root:
  assumes "tree w mnt = Missing \<or> tree w mnt = NotADirectory"
  shows "fst (generate_baseline w mnt None) =
     \<lparr>timestamp = now w, mount_point = mnt, files = [], errors = []\<rparr>"
  using assms by (auto simp: generate_baseline_def Let_def os_walk_def)


lemma concat_map_filter_neq:
  "f x = [] \<Longrightarrow> concat (map f (filter (\<lambda>q. q \<noteq> x) xs)) = concat (map f xs)"
  by (induction xs) auto

lemma generate_baseline_keys:
  "tree w mnt = Directory tuples exc \<Longrightarrow>
   fst ` set (files (fst (generate_baseline w mnt output_file))) =
   set (recorded_paths w mnt (walked w tuples))"
  by (simp add: generate_baseline_files scan_tree_keys)

lemma generate_baseline_lookup:
  assumes "tree w mnt = Directory tuples exc"
    and "\<forall>q \<in> set (walked w tuples). relpath w q mnt = rel \<longrightarrow> q = fp"
    and "fp \<in> set (walked w tuples)" and "relpath w fp mnt = rel"
  shows "map_of (files (fst (generate_baseline w mnt output_file))) rel = scanned_info w fp"
  using assms(3,4)
  by (cases "scanned_info w fp")
    (simp_all add: generate_baseline_files [OF assms(1)] scan_tree_lookup [OF assms(2)])

lemma missing_paths_report:
  "fst ` set (missing (vr_files (snd (compare_files rank previous_files current_files
                                        (initial_results ts mnt bf))))) =
   fst ` set previous_files - fst ` set current_files"
  by (simp add: compare_files_initial set_only_paths image_image)

lemma classified_paths_report:
  "set (unchanged (vr_files (snd (compare_files rank previous_files current_files
                                    (initial_results ts mnt bf))))) \<union>
   path ` set (modified (vr_files (snd (compare_files rank previous_files current_files
                                         (initial_results ts mnt bf))))) =
   fst ` set current_files \<inter> fst ` set previous_files"
proof -
  have "path \<circ> modification_at previous_files current_files = (\<lambda>p. p)"
    by (simp add: fun_eq_iff modification_at_def)
  then have "path ` set (modified (vr_files (snd (compare_files rank previous_files
                 current_files (initial_results ts mnt bf))))) =
        {p \<in> set (common_paths rank previous_files current_files).
           \<not> same_at previous_files current_files p}"
    by (simp add: compare_files_initial image_image flip: set_map)
  then show ?thesis
    by (auto simp: compare_files_initial set_common_paths)
qed







section \<open>The example inputs, evaluated\<close>

lemma ex_generate:
  "files (fst (generate_baseline ex_world ''/mnt'' None)) =
     [(''a.txt'', \<lparr>hashes = Some [''error'' \<mapsto> ''Permission denied''], st_size = Some 10,
                   mtime = Some ''2024-05-01T10:00:00''\<rparr>),
      (''bb.txt'', \<lparr>hashes = Some Map.empty, st_size = Some 10,
                   mtime = Some ''2024-05-01T10:00:00''\<rparr>)]"
  by (simp add: generate_baseline_def ex_world_def os_walk_def Let_def calculate_file_hashes_def)

lemma ex_generate_errors:
  "errors (fst (generate_baseline ex_world ''/mnt'' None)) =
     [''Error processing gone.txt: No such file'']"
  by (simp add: generate_baseline_def ex_world_def os_walk_def Let_def calculate_file_hashes_def)

lemma ex_generate_stored:
  "fst (generate_baseline ex_world_stored ''/mnt'' None) =
   fst (generate_baseline ex_world ''/mnt'' None)"
  by (simp add: generate_baseline_def ex_world_stored_def ex_world_def os_walk_def Let_def
      calculate_file_hashes_def)

lemmas ex_compare_defs =
  common_paths_def only_paths_def set_iter_def same_at_def modification_at_def
  changes_between_def get_hashes_def ex_info_def info_at_def

lemma ex_verify_stored:
  "vr_files (fst (verify_integrity ex_world_stored ''/mnt'' (Some ''out/baseline.json''))) =
     \<lparr>unchanged = [''a.txt''], modified = [],
      new = [PathInfo ''bb.txt'' \<lparr>hashes = Some Map.empty, st_size = Some 10,
                                   mtime = Some ''2024-05-01T10:00:00''\<rparr>],
      missing = [(''gone.txt'', stored_form (ex_info [] 10))]\<rparr>"
proof -
  have st: "store ex_world_stored ''out/baseline.json'' = Some (Json ex_baseline)"
    by (simp add: ex_world_stored_def)
  have rk: "str_rank ex_world_stored = length"
    by (simp add: ex_world_stored_def ex_world_def)
  show ?thesis
    unfolding verify_integrity_loaded [OF st] ex_generate_stored rk compare_files_initial
      ex_generate
    by (simp add: ex_baseline_def ex_compare_defs)
qed

lemma report_timestamp:
  "store w bf = Some (Json previous_baseline) \<Longrightarrow>
   vr_timestamp (fst (verify_integrity w mnt (Some bf))) = now w"
  by (simp add: verify_integrity_loaded compare_files_initial)

lemma ex_store_absent: "store ex_world ''out/baseline.json'' = None"
  by (simp add: ex_world_def)

lemma ex_store_present: "store ex_world_stored ''out/baseline.json'' = Some (Json ex_baseline)"
  by (simp add: ex_world_stored_def)

lemma ex_tree:
  "tree ex_world_stored ''/mnt'' =
     Directory [(''/mnt'', [''a.txt'', ''bb.txt'', ''gone.txt''])] None"
  by (simp add: ex_world_stored_def ex_world_def)

lemma ex_walked:
  "walked ex_world_stored [(''/mnt'', [''a.txt'', ''bb.txt'', ''gone.txt''])] =
     [''/mnt/a.txt'', ''/mnt/bb.txt'', ''/mnt/gone.txt'']"
  by (simp add: walked_def ex_world_stored_def ex_world_def)





section \<open>Properties of the verification report\<close>

text \<open>
  C3 fails on a stored entry that cannot be read. With \<^verbatim>\<open>"hashes": null\<close> in the
  stored entry of \<^verbatim>\<open>bb.txt\<close>, the loop over the common paths lists and counts
  \<^verbatim>\<open>a.txt\<close> as unchanged and then raises on \<^verbatim>\<open>bb.txt\<close>; the handler of lines
  223-226 returns the report without the tally of lines 215-221: one unchanged file is
  counted and the total is 0.
\<close>

theorem tally_skipped_on_error:
  "unchanged (vr_files (fst (verify_integrity ex_world_null ''/mnt''
                               (Some ''out/baseline.json'')))) = [''a.txt''] \<and>
   unchanged_files (vr_summary (fst (verify_integrity ex_world_null ''/mnt''
                                       (Some ''out/baseline.json'')))) = 1 \<and>
   modified_files (vr_summary (fst (verify_integrity ex_world_null ''/mnt''
                                      (Some ''out/baseline.json'')))) = 0 \<and>
   new_files (vr_summary (fst (verify_integrity ex_world_null ''/mnt''
                                 (Some ''out/baseline.json'')))) = 0 \<and>
   missing_files (vr_summary (fst (verify_integrity ex_world_null ''/mnt''
                                     (Some ''out/baseline.json'')))) = 0 \<and>
   total_files (vr_summary (fst (verify_integrity ex_world_null ''/mnt''
                                   (Some ''out/baseline.json'')))) = 0 \<and>
   vr_errors (fst (verify_integrity ex_world_null ''/mnt'' (Some ''out/baseline.json''))) =
     [''Error during verification: '' @ attribute_error ''NoneType'' ''get'']"
proof -
  have st: "store ex_world_null ''out/baseline.json'' =
      Some (JsonOther (Document
          [(''a.txt'', stored_form (ex_info [] 10)),
           (''bb.txt'', Info (BadHashes ''NoneType'') (Size 10)
                          (Some ''2024-05-01T10:00:00''))]))"
    by (simp add: ex_world_null_def)
  have rk: "str_rank ex_world_null = length"
    by (simp add: ex_world_null_def ex_world_def)
  have g: "files (fst (generate_baseline ex_world_null ''/mnt'' None)) =
           files (fst (generate_baseline ex_world ''/mnt'' None))"
    by (simp add: generate_baseline_def ex_world_null_def ex_world_def os_walk_def Let_def
        calculate_file_hashes_def)
  show ?thesis
    unfolding verify_integrity_other [OF st] rk g ex_generate
    by (simp add: compare_loaded_def set_iter_def initial_results_def compare_path_def
        hashes_match_def get_hashes_def current_get_def stored_get_def stored_form_def
        size_form_def ex_info_def)
qed

text \<open>
  C8. Comparing a file dictionary with itself completes, lists every path once as
  unchanged, and leaves the modified, new and missing lists empty.
\<close>

theorem diff_self:
  "fst (compare_files rank A A (initial_results ts mnt bf)) = None \<and>
   set (unchanged (vr_files (snd (compare_files rank A A (initial_results ts mnt bf))))) =
     set (map fst A) \<and>
   distinct (unchanged (vr_files (snd (compare_files rank A A (initial_results ts mnt bf))))) \<and>
   modified (vr_files (snd (compare_files rank A A (initial_results ts mnt bf)))) = [] \<and>
   new (vr_files (snd (compare_files rank A A (initial_results ts mnt bf)))) = [] \<and>
   missing (vr_files (snd (compare_files rank A A (initial_results ts mnt bf)))) = []"
  by (simp add: compare_files_initial same_at_self common_paths_self only_paths_self
      distinct_common_paths)

text \<open>
  C9. With the roles of the two dictionaries exchanged, the paths listed as new by one
  comparison are the paths listed as missing by the other, and conversely; the first
  argument of \<^const>\<open>compare_files\<close> is the previous dictionary.
\<close>

theorem diff_swap:
  "set (map entry_path (new (vr_files (snd (compare_files rank A B (initial_results ts mnt bf)))))) =
   set (map fst (missing (vr_files (snd (compare_files rank' B A (initial_results ts' mnt' bf')))))) \<and>
   set (map fst (missing (vr_files (snd (compare_files rank A B (initial_results ts mnt bf)))))) =
   set (map entry_path (new (vr_files (snd (compare_files rank' B A (initial_results ts' mnt' bf'))))))"
  by (simp add: compare_files_initial set_only_paths comp_def)


text \<open>
  C10. When no file exists at the baseline's path, every entry of the \<open>new\<close> list is
  a bare path; when one exists, every entry is a path together with the record that the
  current scan holds for it.
\<close>

theorem new_entry_shape:
  "(\<not> path_exists w bf \<longrightarrow>
      list_all bare_path (new (vr_files (fst (verify_integrity w mnt (Some bf)))))) \<and>
   (path_exists w bf \<longrightarrow>
      list_all (carries_record (files (fst (generate_baseline w mnt None))))
        (new (vr_files (fst (verify_integrity w mnt (Some bf))))))"
proof (cases "store w bf")
  case None
  then show ?thesis
    by (simp add: verify_integrity_absent path_exists_def list_all_iff)
next
  case (Some s)
  then have ex: "path_exists w bf" by (simp add: path_exists_def)
  show ?thesis
  proof (cases s)
    case (Json previous_baseline)
    with Some show ?thesis
      by (simp add: ex verify_integrity_loaded compare_files_initial list_all_iff
          only_paths_lookup)
  next
    case (NotAFile e)
    with Some have "json_load w bf = Inl e" "store w bf \<noteq> None"
      by (simp_all add: json_load_def)
    then show ?thesis
      by (simp add: ex verify_integrity_unloadable initial_results_def)
  next
    case (Unparsable e)
    with Some have "json_load w bf = Inl e" "store w bf \<noteq> None"
      by (simp_all add: json_load_def)
    then show ?thesis
      by (simp add: ex verify_integrity_unloadable initial_results_def)
  next
    case (JsonOther d)
    show ?thesis
    proof (cases "loaded_files (Other d)")
      case (Inl e)
      with Some JsonOther show ?thesis
        by (simp add: ex verify_integrity_other initial_results_def)
    next
      case (Inr previous_files)
      obtain x r where c: "compare_loaded (str_rank w) previous_files
          (files (fst (generate_baseline w mnt None))) (initial_results (now w) mnt bf) = (x, r)"
        by (cases "compare_loaded (str_rank w) previous_files
          (files (fst (generate_baseline w mnt None))) (initial_results (now w) mnt bf)")
      have "new (vr_files (initial_results (now w) mnt bf)) = []"
        by (simp add: initial_results_def)
      from compare_loaded_new_entries [OF this, of "files (fst (generate_baseline w mnt None))"
          "str_rank w" previous_files] c
      have "list_all (carries_record (files (fst (generate_baseline w mnt None))))
              (new (vr_files r))"
        by simp
      with Some JsonOther Inr c show ?thesis
        by (cases x) (simp_all add: ex verify_integrity_other)
    qed
  qed
qed

text \<open>
  C10 on the example mount: without a baseline file the two recorded paths are listed
  bare; with the stored baseline the one new path is listed with its record.
\<close>

theorem new_entry_shape_witness:
  "\<not> path_exists ex_world ''out/baseline.json'' \<and>
   new (vr_files (fst (verify_integrity ex_world ''/mnt'' (Some ''out/baseline.json'')))) =
     [PathOnly ''a.txt'', PathOnly ''bb.txt''] \<and>
   list_all bare_path
     (new (vr_files (fst (verify_integrity ex_world ''/mnt'' (Some ''out/baseline.json''))))) \<and>
   path_exists ex_world_stored ''out/baseline.json'' \<and>
   map entry_path
     (new (vr_files (fst (verify_integrity ex_world_stored ''/mnt'' (Some ''out/baseline.json''))))) =
     [''bb.txt''] \<and>
   list_all (carries_record (files (fst (generate_baseline ex_world_stored ''/mnt'' None))))
     (new (vr_files (fst (verify_integrity ex_world_stored ''/mnt'' (Some ''out/baseline.json'')))))"
proof -
  have a: "\<not> path_exists ex_world ''out/baseline.json''"
    by (simp add: path_exists_def ex_store_absent)
  have b: "path_exists ex_world_stored ''out/baseline.json''"
    by (simp add: path_exists_def ex_store_present)
  have n: "new (vr_files (fst (verify_integrity ex_world ''/mnt'' (Some ''out/baseline.json'')))) =
     [PathOnly ''a.txt'', PathOnly ''bb.txt'']"
    by (simp add: verify_integrity_absent [OF ex_store_absent] ex_generate)
  from a b n show ?thesis
    using new_entry_shape [of ex_world "''out/baseline.json''" "''/mnt''"]
      new_entry_shape [of ex_world_stored "''out/baseline.json''" "''/mnt''"]
    by (simp add: ex_verify_stored)
qed







text \<open>
  C7, as the code has it. The summary and, up to the order of their entries, the four
  lists of a comparison depend on the two dictionaries only, not on the iteration order
  of the path sets nor on the clock; with the iteration order fixed, the lists
  themselves do not depend on the clock.
\<close>

theorem report_determined_up_to_order:
  "vr_summary (snd (compare_files rank previous_files current_files (initial_results ts mnt bf))) =
   vr_summary (snd (compare_files rank' previous_files current_files (initial_results ts' mnt bf))) \<and>
   mset (unchanged (vr_files (snd (compare_files rank previous_files current_files
                                     (initial_results ts mnt bf))))) =
   mset (unchanged (vr_files (snd (compare_files rank' previous_files current_files
                                     (initial_results ts' mnt bf))))) \<and>
   mset (modified (vr_files (snd (compare_files rank previous_files current_files
                                    (initial_results ts mnt bf))))) =
   mset (modified (vr_files (snd (compare_files rank' previous_files current_files
                                    (initial_results ts' mnt bf))))) \<and>
   mset (new (vr_files (snd (compare_files rank previous_files current_files
                               (initial_results ts mnt bf))))) =
   mset (new (vr_files (snd (compare_files rank' previous_files current_files
                               (initial_results ts' mnt bf))))) \<and>
   mset (missing (vr_files (snd (compare_files rank previous_files current_files
                                   (initial_results ts mnt bf))))) =
   mset (missing (vr_files (snd (compare_files rank' previous_files current_files
                                   (initial_results ts' mnt bf))))) \<and>
   vr_files (snd (compare_files rank previous_files current_files (initial_results ts mnt bf))) =
   vr_files (snd (compare_files rank previous_files current_files (initial_results ts' mnt bf)))"
proof -
  note c = mset_common_paths [of rank previous_files current_files rank']
  note n = mset_only_paths [of rank current_files previous_files rank']
  note m = mset_only_paths [of rank previous_files current_files rank']
  have lens: "length (only_paths rank current_files previous_files) =
              length (only_paths rank' current_files previous_files)"
    "length (only_paths rank previous_files current_files) =
     length (only_paths rank' previous_files current_files)"
    using n m by (auto dest: mset_eq_length)
  have s: "vr_summary (snd (compare_files rank previous_files current_files
                              (initial_results ts mnt bf))) =
           vr_summary (snd (compare_files rank' previous_files current_files
                              (initial_results ts' mnt bf)))"
    by (simp add: compare_files_initial lens length_filter_cong_list [OF c])
  have u: "mset (unchanged (vr_files (snd (compare_files rank previous_files current_files
                                     (initial_results ts mnt bf))))) =
   mset (unchanged (vr_files (snd (compare_files rank' previous_files current_files
                                     (initial_results ts' mnt bf)))))"
    by (simp only: compare_files_initial snd_conv verification_results.select_convs
        file_lists.select_convs mset_filter_cong_list [OF c])
  have md: "mset (modified (vr_files (snd (compare_files rank previous_files current_files
                                    (initial_results ts mnt bf))))) =
   mset (modified (vr_files (snd (compare_files rank' previous_files current_files
                                    (initial_results ts' mnt bf)))))"
    by (simp only: compare_files_initial snd_conv verification_results.select_convs
        file_lists.select_convs mset_map_cong_list [OF mset_filter_cong_list [OF c]])
  have nw: "mset (new (vr_files (snd (compare_files rank previous_files current_files
                               (initial_results ts mnt bf))))) =
   mset (new (vr_files (snd (compare_files rank' previous_files current_files
                               (initial_results ts' mnt bf)))))"
    by (simp only: compare_files_initial snd_conv verification_results.select_convs
        file_lists.select_convs mset_map_cong_list [OF n])
  have mi: "mset (missing (vr_files (snd (compare_files rank previous_files current_files
                                   (initial_results ts mnt bf))))) =
   mset (missing (vr_files (snd (compare_files rank' previous_files current_files
                                   (initial_results ts' mnt bf)))))"
    by (simp only: compare_files_initial snd_conv verification_results.select_convs
        file_lists.select_convs mset_map_cong_list [OF m])
  have f: "vr_files (snd (compare_files rank previous_files current_files
                            (initial_results ts mnt bf))) =
   vr_files (snd (compare_files rank previous_files current_files (initial_results ts' mnt bf)))"
    by (simp add: compare_files_initial)
  from s u md nw mi f show ?thesis by simp
qed


text \<open>
  C7 as stated fails: with the same tree and the same stored baseline, a run one second
  later returns a different report; and on the same two dictionaries another iteration
  order of the path set lists the unchanged paths in another order.
\<close>

theorem report_not_reproducible_counterexample:
  "fst (verify_integrity ex_world_stored ''/mnt'' (Some ''out/baseline.json'')) \<noteq>
   fst (verify_integrity (ex_world_stored\<lparr>now := ''2024-05-02T09:00:01''\<rparr>) ''/mnt''
          (Some ''out/baseline.json'')) \<and>
   unchanged (vr_files (snd (compare_files length ex_previous_files ex_current_files ex_results))) =
     [''a.txt'', ''b.txt''] \<and>
   unchanged (vr_files (snd (compare_files ex_rank ex_previous_files ex_current_files ex_results))) =
     [''b.txt'', ''a.txt'']"
proof -
  have "vr_timestamp (fst (verify_integrity ex_world_stored ''/mnt'' (Some ''out/baseline.json'')))
          = ''2024-05-02T09:00:00''"
    by (subst report_timestamp [of _ _ ex_baseline])
      (simp_all add: ex_world_stored_def ex_world_def)
  moreover have "vr_timestamp (fst (verify_integrity
          (ex_world_stored\<lparr>now := ''2024-05-02T09:00:01''\<rparr>) ''/mnt''
          (Some ''out/baseline.json''))) = ''2024-05-02T09:00:01''"
    by (subst report_timestamp [of _ _ ex_baseline])
      (simp_all add: ex_world_stored_def ex_world_def)
  ultimately have "fst (verify_integrity ex_world_stored ''/mnt'' (Some ''out/baseline.json'')) \<noteq>
     fst (verify_integrity (ex_world_stored\<lparr>now := ''2024-05-02T09:00:01''\<rparr>) ''/mnt''
          (Some ''out/baseline.json''))"
    by auto
  moreover have "unchanged (vr_files (snd (compare_files length ex_previous_files ex_current_files
                    ex_results))) = [''a.txt'', ''b.txt'']"
    unfolding ex_results_def compare_files_initial
    by (simp add: ex_previous_files_def ex_current_files_def ex_compare_defs)
  moreover have "unchanged (vr_files (snd (compare_files ex_rank ex_previous_files ex_current_files
                    ex_results))) = [''b.txt'', ''a.txt'']"
    unfolding ex_results_def compare_files_initial
    by (simp add: ex_previous_files_def ex_current_files_def ex_compare_defs ex_rank_def)
  ultimately show ?thesis by simp
qed


section \<open>Properties of the scan and of the verification run\<close>

text \<open>
  C2, as the code has it. For a file that the walk visits: if it cannot be opened or read
  but can be stat'ed, the scan still completes, the relative path is a key of the
  records, no scan error is appended for it (the errors are those of the other files and
  of the walk), its record holds the failure under the key \<^verbatim>\<open>error\<close> of its hashes when
  no other visited file has the same relative path, and a verification against a stored
  baseline never lists the path as missing: if the baseline has the path, it is listed
  as unchanged or modified. If \<^verbatim>\<open>os.stat\<close> fails for the file, the failure is among the
  scan errors, and, when no visited file of that relative path gets a record, the path is
  not a key of the records and is listed as missing against a baseline that has it.
\<close>

theorem unreadable_file_in_scan:
  assumes tree: "tree w mnt = Directory tuples exc" and fp: "fp \<in> set (walked w tuples)"
  shows
    "(open_read w fp = Inl e \<and> os_stat w fp = Inr (sz, mt) \<longrightarrow>
        relpath w fp mnt \<in> fst ` set (files (fst (generate_baseline w mnt None))) \<and>
        errors (fst (generate_baseline w mnt None)) =
          concat (map (scan_error w mnt) (filter (\<lambda>q. q \<noteq> fp) (walked w tuples))) @
          (case exc of None \<Rightarrow> []
           | Some x \<Rightarrow> [''Error walking filesystem '' @ mnt @ '': '' @ x]) \<and>
        ((\<forall>q \<in> set (walked w tuples). relpath w q mnt = relpath w fp mnt \<longrightarrow> q = fp) \<longrightarrow>
           map_of (files (fst (generate_baseline w mnt None))) (relpath w fp mnt) =
             Some \<lparr>hashes = Some [''error'' \<mapsto> e], st_size = Some sz, mtime = Some mt\<rparr>) \<and>
        (store w bf = Some (Json previous_baseline) \<longrightarrow>
           relpath w fp mnt \<notin>
             fst ` set (missing (vr_files (fst (verify_integrity w mnt (Some bf))))) \<and>
           (relpath w fp mnt \<in> fst ` set (files previous_baseline) \<longrightarrow>
              relpath w fp mnt \<in>
                set (unchanged (vr_files (fst (verify_integrity w mnt (Some bf))))) \<union>
                path ` set (modified (vr_files (fst (verify_integrity w mnt (Some bf)))))))) \<and>
     (os_stat w fp = Inl e \<longrightarrow>
        (''Error processing '' @ relpath w fp mnt @ '': '' @ e)
          \<in> set (errors (fst (generate_baseline w mnt None))) \<and>
        ((\<forall>q \<in> set (walked w tuples).
             relpath w q mnt = relpath w fp mnt \<longrightarrow> scanned_info w q = None) \<longrightarrow>
           relpath w fp mnt \<notin> fst ` set (files (fst (generate_baseline w mnt None))) \<and>
           (store w bf = Some (Json previous_baseline) \<and>
            relpath w fp mnt \<in> fst ` set (files previous_baseline) \<longrightarrow>
              relpath w fp mnt \<in>
                fst ` set (missing (vr_files (fst (verify_integrity w mnt (Some bf))))))))"
proof (intro conjI impI)
  assume a: "open_read w fp = Inl e \<and> os_stat w fp = Inr (sz, mt)"
  then have si: "scanned_info w fp =
      Some \<lparr>hashes = Some [''error'' \<mapsto> e], st_size = Some sz, mtime = Some mt\<rparr>"
    by (simp add: scanned_info_def calculate_file_hashes_def)
  from a have se: "scan_error w mnt fp = []"
    by (simp add: scan_error_def)
  from fp si show key: "relpath w fp mnt \<in> fst ` set (files (fst (generate_baseline w mnt None)))"
    by (auto simp: generate_baseline_keys [OF tree] recorded_paths_def)
  show "errors (fst (generate_baseline w mnt None)) =
          concat (map (scan_error w mnt) (filter (\<lambda>q. q \<noteq> fp) (walked w tuples))) @
          (case exc of None \<Rightarrow> []
           | Some x \<Rightarrow> [''Error walking filesystem '' @ mnt @ '': '' @ x])"
    by (simp add: generate_baseline_errors [OF tree] concat_map_filter_neq [of "scan_error w mnt" fp, OF se])
  show "map_of (files (fst (generate_baseline w mnt None))) (relpath w fp mnt) =
             Some \<lparr>hashes = Some [''error'' \<mapsto> e], st_size = Some sz, mtime = Some mt\<rparr>"
    if "\<forall>q \<in> set (walked w tuples). relpath w q mnt = relpath w fp mnt \<longrightarrow> q = fp"
    using generate_baseline_lookup [OF tree that fp refl] si by simp
  {
    assume st: "store w bf = Some (Json previous_baseline)"
    from key show "relpath w fp mnt \<notin>
             fst ` set (missing (vr_files (fst (verify_integrity w mnt (Some bf)))))"
      by (simp add: verify_integrity_loaded [OF st] missing_paths_report)
    assume "relpath w fp mnt \<in> fst ` set (files previous_baseline)"
    with key show "relpath w fp mnt \<in>
                set (unchanged (vr_files (fst (verify_integrity w mnt (Some bf))))) \<union>
                path ` set (modified (vr_files (fst (verify_integrity w mnt (Some bf)))))"
      by (simp add: verify_integrity_loaded [OF st] classified_paths_report)
  }
next
  assume a: "os_stat w fp = Inl e"
  then have "scan_error w mnt fp = [''Error processing '' @ relpath w fp mnt @ '': '' @ e]"
    by (simp add: scan_error_def)
  with fp show "(''Error processing '' @ relpath w fp mnt @ '': '' @ e)
          \<in> set (errors (fst (generate_baseline w mnt None)))"
    by (auto simp: generate_baseline_errors [OF tree] intro!: bexI [of _ fp])
  {
    assume u: "\<forall>q \<in> set (walked w tuples).
             relpath w q mnt = relpath w fp mnt \<longrightarrow> scanned_info w q = None"
    then show nk: "relpath w fp mnt \<notin> fst ` set (files (fst (generate_baseline w mnt None)))"
      by (auto simp: generate_baseline_keys [OF tree] recorded_paths_def)
    assume "store w bf = Some (Json previous_baseline) \<and>
            relpath w fp mnt \<in> fst ` set (files previous_baseline)"
    with nk show "relpath w fp mnt \<in>
                fst ` set (missing (vr_files (fst (verify_integrity w mnt (Some bf)))))"
      by (simp add: verify_integrity_loaded missing_paths_report)
  }
qed

text \<open>
  C2 as amended, on the example mount: \<^verbatim>\<open>a.txt\<close> cannot be opened,
  \<^verbatim>\<open>gone.txt\<close> cannot be stat'ed.
\<close>

theorem unreadable_file_in_scan_witness:
  "tree ex_world_stored ''/mnt'' =
     Directory [(''/mnt'', [''a.txt'', ''bb.txt'', ''gone.txt''])] None \<and>
   open_read ex_world_stored ''/mnt/a.txt'' = Inl ''Permission denied'' \<and>
   os_stat ex_world_stored ''/mnt/a.txt'' = Inr (10, ''2024-05-01T10:00:00'') \<and>
   os_stat ex_world_stored ''/mnt/gone.txt'' = Inl ''No such file'' \<and>
   map_of (files (fst (generate_baseline ex_world_stored ''/mnt'' None))) ''a.txt'' =
     Some \<lparr>hashes = Some [''error'' \<mapsto> ''Permission denied''], st_size = Some 10,
           mtime = Some ''2024-05-01T10:00:00''\<rparr> \<and>
   ''a.txt'' \<notin> fst ` set (missing (vr_files (fst (verify_integrity ex_world_stored ''/mnt''
                                                    (Some ''out/baseline.json''))))) \<and>
   ''Error processing gone.txt: No such file''
     \<in> set (errors (fst (generate_baseline ex_world_stored ''/mnt'' None))) \<and>
   ''gone.txt'' \<notin> fst ` set (files (fst (generate_baseline ex_world_stored ''/mnt'' None))) \<and>
   ''gone.txt'' \<in> fst ` set (missing (vr_files (fst (verify_integrity ex_world_stored ''/mnt''
                                                     (Some ''out/baseline.json'')))))"
proof -
  have o: "open_read ex_world_stored ''/mnt/a.txt'' = Inl ''Permission denied''"
    and s: "os_stat ex_world_stored ''/mnt/a.txt'' = Inr (10, ''2024-05-01T10:00:00'')"
    and g: "os_stat ex_world_stored ''/mnt/gone.txt'' = Inl ''No such file''"
    and r: "relpath ex_world_stored = (\<lambda>p start. drop (length start + 1) p)"
    by (simp_all add: ex_world_stored_def ex_world_def)
  have si: "scanned_info ex_world_stored ''/mnt/gone.txt'' = None"
    by (simp add: scanned_info_def g)
  have fa: "''/mnt/a.txt'' \<in> set (walked ex_world_stored
               [(''/mnt'', [''a.txt'', ''bb.txt'', ''gone.txt''])])"
    and fg: "''/mnt/gone.txt'' \<in> set (walked ex_world_stored
               [(''/mnt'', [''a.txt'', ''bb.txt'', ''gone.txt''])])"
    by (simp_all add: ex_walked)
  note a = unreadable_file_in_scan [OF ex_tree fa, of "''Permission denied''" 10
      "''2024-05-01T10:00:00''" "''out/baseline.json''" ex_baseline]
  note b = unreadable_file_in_scan [OF ex_tree fg, of "''No such file''" 10
      "''2024-05-01T10:00:00''" "''out/baseline.json''" ex_baseline]
  from a have "map_of (files (fst (generate_baseline ex_world_stored ''/mnt'' None))) ''a.txt'' =
     Some \<lparr>hashes = Some [''error'' \<mapsto> ''Permission denied''], st_size = Some 10,
           mtime = Some ''2024-05-01T10:00:00''\<rparr> \<and>
   ''a.txt'' \<notin> fst ` set (missing (vr_files (fst (verify_integrity ex_world_stored ''/mnt''
                                                    (Some ''out/baseline.json'')))))"
    by (simp add: o s r ex_walked ex_store_present)
  moreover from b have "''Error processing gone.txt: No such file''
     \<in> set (errors (fst (generate_baseline ex_world_stored ''/mnt'' None))) \<and>
   ''gone.txt'' \<notin> fst ` set (files (fst (generate_baseline ex_world_stored ''/mnt'' None))) \<and>
   ''gone.txt'' \<in> fst ` set (missing (vr_files (fst (verify_integrity ex_world_stored ''/mnt''
                                                     (Some ''out/baseline.json'')))))"
    by (simp add: g r si ex_walked ex_store_present ex_baseline_def)
  ultimately show ?thesis
    using ex_tree o s g by simp
qed

text \<open>
  C2 as stated fails: \<^verbatim>\<open>a.txt\<close> cannot be opened, yet it is a key of the records,
  the only scan error is that of \<^verbatim>\<open>gone.txt\<close>, and against the baseline that lists
  it the path is unchanged, not missing.
\<close>

theorem unreadable_file_recorded_counterexample:
  "open_read ex_world_stored ''/mnt/a.txt'' = Inl ''Permission denied'' \<and>
   map fst (files ex_baseline) = [''a.txt'', ''gone.txt''] \<and>
   map fst (files (fst (generate_baseline ex_world_stored ''/mnt'' None))) =
     [''a.txt'', ''bb.txt''] \<and>
   errors (fst (generate_baseline ex_world_stored ''/mnt'' None)) =
     [''Error processing gone.txt: No such file''] \<and>
   unchanged (vr_files (fst (verify_integrity ex_world_stored ''/mnt''
                               (Some ''out/baseline.json'')))) = [''a.txt''] \<and>
   map fst (missing (vr_files (fst (verify_integrity ex_world_stored ''/mnt''
                                     (Some ''out/baseline.json''))))) = [''gone.txt'']"
  by (simp add: ex_verify_stored ex_generate_stored ex_generate ex_generate_errors ex_baseline_def)
    (simp add: ex_world_stored_def ex_world_def)

text \<open>
  C4, as the code has it. When nothing exists at the baseline's path,
  \<^const>\<open>verify_integrity\<close> writes nothing and returns a report whose \<open>new\<close> list holds
  every path of the current scan, with empty unchanged, modified and missing lists, the
  matching summary and the error \<^verbatim>\<open>Previous baseline file not found\<close>. The command
  line's step, in that case, does not verify: it generates a baseline and, when the path
  can be written, stores it there.
\<close>

theorem absent_baseline_report:
  assumes "store w bf = None"
  shows
    "snd (verify_integrity w mnt (Some bf)) = w \<and>
     vr_files (fst (verify_integrity w mnt (Some bf))) =
       \<lparr>unchanged = [], modified = [],
        new = map PathOnly (map fst (files (fst (generate_baseline w mnt None)))),
        missing = []\<rparr> \<and>
     vr_summary (fst (verify_integrity w mnt (Some bf))) =
       \<lparr>total_files = length (files (fst (generate_baseline w mnt None))),
        unchanged_files = 0, modified_files = 0,
        new_files = length (files (fst (generate_baseline w mnt None))),
        missing_files = 0\<rparr> \<and>
     vr_errors (fst (verify_integrity w mnt (Some bf))) =
       [''Previous baseline file not found: '' @ bf] \<and>
     (bf \<noteq> [] \<and> write_error w bf = None \<longrightarrow>
        main_integrity w mnt bf =
          Inr (\<lparr>baseline_part = Persisted (fst (generate_baseline w mnt None)),
                verification = None\<rparr>,
               w\<lparr>store := (store w)(bf \<mapsto> Json (fst (generate_baseline w mnt None)))\<rparr>))"
  using assms
  by (simp add: verify_integrity_absent main_integrity_def path_isfile_def Let_def
      generate_baseline_saved)

text \<open>
  C4 as amended, on the example mount with no baseline file.
\<close>

theorem absent_baseline_report_witness:
  "store ex_world ''out/baseline.json'' = None \<and>
   write_error ex_world ''out/baseline.json'' = None \<and>
   new (vr_files (fst (verify_integrity ex_world ''/mnt'' (Some ''out/baseline.json'')))) =
     [PathOnly ''a.txt'', PathOnly ''bb.txt''] \<and>
   total_files (vr_summary (fst (verify_integrity ex_world ''/mnt'' (Some ''out/baseline.json'')))) = 2 \<and>
   store (snd (projr (main_integrity ex_world ''/mnt'' ''out/baseline.json'')))
     ''out/baseline.json'' = Some (Json (fst (generate_baseline ex_world ''/mnt'' None)))"
proof -
  have w: "write_error ex_world ''out/baseline.json'' = None"
    by (simp add: ex_world_def)
  show ?thesis
    using absent_baseline_report [OF ex_store_absent, of "''/mnt''"]
    by (simp add: ex_store_absent w ex_generate)
qed

text \<open>
  C4 as stated fails: \<^const>\<open>verify_integrity\<close> returns its report and leaves the
  baseline's path empty; the command line's step stores a baseline and has no
  verification report.
\<close>

theorem verification_does_not_persist_counterexample:
  "store ex_world ''out/baseline.json'' = None \<and>
   store (snd (verify_integrity ex_world ''/mnt'' (Some ''out/baseline.json'')))
     ''out/baseline.json'' = None \<and>
   \<not> isl (main_integrity ex_world ''/mnt'' ''out/baseline.json'') \<and>
   verification (fst (projr (main_integrity ex_world ''/mnt'' ''out/baseline.json''))) = None"
  by (simp add: verify_integrity_absent [OF ex_store_absent] ex_store_absent main_integrity_def
      path_isfile_def Let_def)

text \<open>
  C5, as the code has it. For a root that is missing or not a directory,
  \<^const>\<open>generate_baseline\<close> returns a baseline with no records and no errors. When the
  walk itself raises, the call still returns a baseline: the exception is the last entry
  of its errors.
\<close>

theorem root_failure_absorbed:
  "(tree w mnt = Missing \<or> tree w mnt = NotADirectory \<longrightarrow>
      generate_baseline w mnt None =
        (\<lparr>timestamp = now w, mount_point = mnt, files = [], errors = []\<rparr>, w)) \<and>
   (tree w mnt = Directory tuples (Some e) \<longrightarrow>
      snd (generate_baseline w mnt None) = w \<and>
      timestamp (fst (generate_baseline w mnt None)) = now w \<and>
      mount_point (fst (generate_baseline w mnt None)) = mnt \<and>
      errors (fst (generate_baseline w mnt None)) =
        concat (map (scan_error w mnt) (walked w tuples)) @
        [''Error walking filesystem '' @ mnt @ '': '' @ e])"
proof (intro conjI impI)
  assume a: "tree w mnt = Missing \<or> tree w mnt = NotADirectory"
  have "generate_baseline w mnt None =
        (fst (generate_baseline w mnt None), snd (generate_baseline w mnt None))"
    by simp
  then show "generate_baseline w mnt None =
        (\<lparr>timestamp = now w, mount_point = mnt, files = [], errors = []\<rparr>, w)"
    by (simp only: generate_baseline_no_root [OF a] generate_baseline_no_output)
next
  assume a: "tree w mnt = Directory tuples (Some e)"
  show "snd (generate_baseline w mnt None) = w"
    by (rule generate_baseline_no_output)
  show "errors (fst (generate_baseline w mnt None)) =
        concat (map (scan_error w mnt) (walked w tuples)) @
        [''Error walking filesystem '' @ mnt @ '': '' @ e]"
    by (simp add: generate_baseline_errors [OF a])
  have keep: "timestamp (scan_files w mnt root names b) = timestamp b \<and>
              mount_point (scan_files w mnt root names b) = mount_point b"
    for root names b
    by (induction names arbitrary: b) (auto simp: Let_def split: sum.splits)
  have keep': "timestamp (scan_tree w mnt ts b) = timestamp b \<and>
              mount_point (scan_tree w mnt ts b) = mount_point b" for ts b
    by (induction ts arbitrary: b) (auto simp: keep)
  show "timestamp (fst (generate_baseline w mnt None)) = now w"
    by (simp add: generate_baseline_def Let_def os_walk_def a keep')
  show "mount_point (fst (generate_baseline w mnt None)) = mnt"
    by (simp add: generate_baseline_def Let_def os_walk_def a keep')
qed

text \<open>
  C5 as amended: a missing root, and a walk that raises.
\<close>

theorem root_failure_absorbed_witness:
  "tree ex_world ''/nowhere'' = Missing \<and>
   files (fst (generate_baseline ex_world ''/nowhere'' None)) = [] \<and>
   errors (fst (generate_baseline ex_world ''/nowhere'' None)) = [] \<and>
   tree ex_world ''/proc/x'' = Directory [] (Some ''bad path'') \<and>
   errors (fst (generate_baseline ex_world ''/proc/x'' None)) =
     [''Error walking filesystem /proc/x: bad path'']"
proof -
  have 1: "tree ex_world ''/nowhere'' = Missing"
    and 2: "tree ex_world ''/proc/x'' = Directory [] (Some ''bad path'')"
    by (simp_all add: ex_world_def)
  show ?thesis
    using root_failure_absorbed [of ex_world "''/nowhere''"]
      root_failure_absorbed [of ex_world "''/proc/x''" "[]" "''bad path''"]
    by (simp add: 1 2 walked_Nil)
qed

text \<open>
  C5 as stated fails: for a missing root and for a root that is a regular file the call
  returns an empty baseline, with no error.
\<close>

theorem root_failure_counterexample:
  "tree ex_world ''/nowhere'' = Missing \<and>
   generate_baseline ex_world ''/nowhere'' None =
     (\<lparr>timestamp = ''2024-05-02T09:00:00'', mount_point = ''/nowhere'', files = [],
       errors = []\<rparr>, ex_world) \<and>
   tree ex_world ''/etc/hostname'' = NotADirectory \<and>
   generate_baseline ex_world ''/etc/hostname'' None =
     (\<lparr>timestamp = ''2024-05-02T09:00:00'', mount_point = ''/etc/hostname'', files = [],
       errors = []\<rparr>, ex_world)"
proof -
  have 1: "tree ex_world ''/nowhere'' = Missing"
    and 2: "tree ex_world ''/etc/hostname'' = NotADirectory"
    and 3: "now ex_world = ''2024-05-02T09:00:00''"
    by (simp_all add: ex_world_def)
  have a: "generate_baseline ex_world ''/nowhere'' None =
     (\<lparr>timestamp = ''2024-05-02T09:00:00'', mount_point = ''/nowhere'', files = [],
       errors = []\<rparr>, ex_world)"
    by (rule prod_eqI) (simp_all add: generate_baseline_no_root 1 3 generate_baseline_no_output)
  have b: "generate_baseline ex_world ''/etc/hostname'' None =
     (\<lparr>timestamp = ''2024-05-02T09:00:00'', mount_point = ''/etc/hostname'', files = [],
       errors = []\<rparr>, ex_world)"
    by (rule prod_eqI) (simp_all add: generate_baseline_no_root 2 3 generate_baseline_no_output)
  from 1 2 a b show ?thesis by simp
qed

end
